theory Spec2Isabelle
  imports Main "HOL-Library.AList"
begin

section \<open>Python values, dictionaries and errors\<close>

text \<open>
  The values that travel through \<^verbatim>\<open>tenable/sc/alerts.py\<close>: keyword arguments,
  filter tuples, the alert document and the decoded JSON replies. A dictionary is an
  association list in insertion order, as a Python \<^verbatim>\<open>dict\<close> is; it is read with
  \<open>map_of\<close>, written with \<open>AList.update\<close> (an existing key keeps its place, a new
  one goes to the end) and a key is deleted with \<open>AList.delete\<close>.
\<close>

datatype pyval =
    PNone
  | PBool bool
  | PInt int
  | PStr string
  | PTuple "pyval list"
  | PList "pyval list"
  | PDict "(string \<times> pyval) list"

type_synonym pydict = "(string \<times> pyval) list"

datatype pytype = TNone | TBool | TInt | TStr | TTuple | TList | TDict

fun py_type :: "pyval \<Rightarrow> pytype" where
  "py_type PNone = TNone"
| "py_type (PBool b) = TBool"
| "py_type (PInt i) = TInt"
| "py_type (PStr s) = TStr"
| "py_type (PTuple xs) = TTuple"
| "py_type (PList xs) = TList"
| "py_type (PDict d) = TDict"

text \<open>
  Every way a call can end without a value. \<open>ValidationError\<close> carries the field
  name, the offending value and, for a choice-constrained field, the allowed set.
  \<open>External\<close> stands for whatever a collaborator (the query constructor, the HTTP
  session) raises on its own.
\<close>

datatype error =
    ValidationError string pyval "pyval list option"
  | NameError string
  | IndexError
  | KeyError string
  | TypeError
  | External string

definition then_do :: "error + 'a \<Rightarrow> ('a \<Rightarrow> error + 'b) \<Rightarrow> error + 'b" where
  "then_do r f = (case r of Inl e \<Rightarrow> Inl e | Inr v \<Rightarrow> f v)"

definition has_key :: "string \<Rightarrow> pydict \<Rightarrow> bool" where
  "has_key k kw = (map_of kw k \<noteq> None)"

text \<open>\<^verbatim>\<open>xs[i]\<close> on a tuple: out of range raises IndexError.\<close>

definition item :: "pyval list \<Rightarrow> nat \<Rightarrow> error + pyval" where
  "item xs i = (if i < length xs then Inr (xs ! i) else Inl IndexError)"

subsection \<open>Text helpers\<close>

text \<open>\<^verbatim>\<open>s.lower()\<close>, for the letters of ASCII.\<close>

definition lower_char :: "char \<Rightarrow> char" where
  "lower_char c =
     (case map_of (zip ''ABCDEFGHIJKLMNOPQRSTUVWXYZ'' ''abcdefghijklmnopqrstuvwxyz'') c of
        None \<Rightarrow> c
      | Some l \<Rightarrow> l)"

definition lower :: "string \<Rightarrow> string" where
  "lower s = map lower_char s"

text \<open>\<^verbatim>\<open>str(b)\<close> for a \<^verbatim>\<open>bool\<close>.\<close>

definition str_bool :: "bool \<Rightarrow> string" where
  "str_bool b = (if b then ''True'' else ''False'')"

definition digit_char :: "nat \<Rightarrow> char" where
  "digit_char d = ''0123456789'' ! d"

fun digits :: "nat \<Rightarrow> string" where
  "digits n = (if n < 10 then [digit_char n] else digits (n div 10) @ [digit_char (n mod 10)])"

text \<open>\<^verbatim>\<open>'{}'.format(i)\<close> for an \<^verbatim>\<open>int\<close>: its decimal numeral.\<close>

definition str_int :: "int \<Rightarrow> string" where
  "str_int i = (if i < 0 then CHR ''-'' # digits (nat (- i)) else digits (nat i))"

text \<open>\<^verbatim>\<open>sep.join(xs)\<close>.\<close>

fun join :: "string \<Rightarrow> string list \<Rightarrow> string" where
  "join sep [] = []"
| "join sep [x] = x"
| "join sep (x # y # ys) = x @ sep @ join sep (y # ys)"

section \<open>The collaborators\<close>

text \<open>
  Modelled from the spec: the Field Validator \<^verbatim>\<open>self._check\<close> is inherited from
  \<^verbatim>\<open>SCEndpoint\<close> (\<^verbatim>\<open>tenable/sc/base.py\<close>), which is not among the sources. The
  specification gives its contract:
  \<^verbatim>\<open>check(field_name, value, expected_type, choices?) -> validated_value\<close>, raising on
  type mismatch or value not in \<^verbatim>\<open>choices\<close>; the failure names the field, the provided
  value and, for choice-constrained fields, the allowed set. A value matches the expected
  type when it is of that type; the contract knows nothing of conversions, nor of
  Python's reading of a \<^verbatim>\<open>bool\<close> as an \<^verbatim>\<open>int\<close>.
\<close>

definition check :: "string \<Rightarrow> pyval \<Rightarrow> pytype \<Rightarrow> pyval list option \<Rightarrow> error + pyval" where
  "check name v ty choices =
     (if py_type v \<noteq> ty then Inl (ValidationError name v choices)
      else case choices of
             None \<Rightarrow> Inr v
           | Some cs \<Rightarrow> if v \<in> set cs then Inr v else Inl (ValidationError name v choices))"

text \<open>
  The Filter Query Builder \<^verbatim>\<open>self._api.analysis._query_constructor(*filters, **kw)\<close>
  lives in \<^verbatim>\<open>tenable/sc/analysis.py\<close>, outside the sources; it is a parameter
  \<open>qc\<close> of the model: given the filter tuples and the keyword mapping it either
  raises or returns the query value. \<^verbatim>\<open>**kw\<close> hands it a copy, so it cannot change
  the caller's mapping.

  The HTTP session \<^verbatim>\<open>self._api\<close> is a parameter too: \<open>http\<close> maps a request to
  the decoded JSON body of the reply, or raises. Every call of either collaborator is
  recorded, in order, as an event.
\<close>

type_synonym query_constructor = "pyval list \<Rightarrow> pydict \<Rightarrow> error + pyval"

datatype http_method = GET | POST | PATCH | DELETE

record request =
  rmethod :: http_method
  rpath :: string
  rparams :: "pydict option"
  rjson :: "pydict option"

type_synonym transport = "request \<Rightarrow> error + pyval"

datatype event =
    QueryBuilt "pyval list" pydict
  | Sent request

text \<open>\<^verbatim>\<open>.json()['response']\<close> on the reply.\<close>

definition response :: "error + pyval \<Rightarrow> error + pyval" where
  "response r =
     then_do r (\<lambda>body. case body of
         PDict d \<Rightarrow> (case map_of d ''response'' of
                       None \<Rightarrow> Inl (KeyError ''response'')
                     | Some v \<Rightarrow> Inr v)
       | _ \<Rightarrow> Inl TypeError)"

section \<open>The alert document builder\<close>

text \<open>
  \<^verbatim>\<open>AlertAPI._alert_creator(self, *filters, **kw)\<close>, lines 29 to 106, one definition
  for each \<^verbatim>\<open>if\<close> block of the body, in the order of the source.
\<close>

text \<open>Lines 35 to 43: assemble the query from the filter expressions.\<close>

definition build_query :: "query_constructor \<Rightarrow> pyval list \<Rightarrow> pydict \<Rightarrow> event list \<times> (error + pydict)" where
  "build_query qc filters kw =
     (if length filters > 0 then
        let kw1 = (if \<not> has_key ''data_type'' kw
                   then AList.update ''data_type'' (PStr ''vuln'') kw else kw);
            kw2 = AList.update ''analysis_type'' (the (map_of kw1 ''data_type'')) kw1
        in ([QueryBuilt filters kw2],
            then_do (qc filters kw2) (\<lambda>q.
              Inr (AList.delete ''data_type''
                    (AList.delete ''analysis_type'' (AList.update ''query'' q kw2)))))
      else ([], Inr kw))"

text \<open>Lines 45 and 46.\<close>

definition check_name :: "pydict \<Rightarrow> error + pydict" where
  "check_name kw =
     (case map_of kw ''name'' of
        None \<Rightarrow> Inr kw
      | Some v \<Rightarrow> then_do (check ''name'' v TStr None) (\<lambda>v'. Inr (AList.update ''name'' v' kw)))"

text \<open>Lines 48 to 50.\<close>

definition check_description :: "pydict \<Rightarrow> error + pydict" where
  "check_description kw =
     (case map_of kw ''description'' of
        None \<Rightarrow> Inr kw
      | Some v \<Rightarrow> then_do (check ''description'' v TStr None)
                    (\<lambda>v'. Inr (AList.update ''description'' v' kw)))"

text \<open>
  Lines 52 and 53: \<^verbatim>\<open>doc['query'] = self._check('query', kw['query'], dict)\<close>. The
  right-hand side is evaluated first, then the target \<^verbatim>\<open>doc\<close>, a name that is bound
  nowhere in the function, the class or the module: once the check has passed, looking
  it up raises NameError.
\<close>

definition check_query :: "pydict \<Rightarrow> error + pydict" where
  "check_query kw =
     (case map_of kw ''query'' of
        None \<Rightarrow> Inr kw
      | Some v \<Rightarrow> then_do (check ''query'' v TDict None) (\<lambda>v'. Inl (NameError ''doc'')))"

text \<open>
  Lines 55 to 61. \<^verbatim>\<open>str(...)\<close> is applied to what the validator returns, a
  \<^verbatim>\<open>bool\<close>; the last branch is there for totality only.
\<close>

definition check_always_exec :: "pydict \<Rightarrow> error + pydict" where
  "check_always_exec kw =
     (case map_of kw ''always_exec_on_trigger'' of
        None \<Rightarrow> Inr kw
      | Some v \<Rightarrow> then_do (check ''always_exec_on_trigger'' v TBool None) (\<lambda>v'.
          case v' of
            PBool b \<Rightarrow> Inr (AList.delete ''always_exec_on_trigger''
                         (AList.update ''executeOnEveryTrigger'' (PStr (lower (str_bool b))) kw))
          | _ \<Rightarrow> Inl TypeError))"

definition trigger_operators :: "pyval list" where
  "trigger_operators = [PStr ''>='', PStr ''<='', PStr ''='', PStr ''!='']"

text \<open>
  Lines 63 to 75. The three subscripts read the tuple one after the other, each after
  the check of the element before it; nothing looks at the length of the tuple. The last
  branch is there for totality only.
\<close>

definition expand_trigger :: "pydict \<Rightarrow> error + pydict" where
  "expand_trigger kw =
     (case map_of kw ''trigger'' of
        None \<Rightarrow> Inr kw
      | Some t \<Rightarrow>
          then_do (check ''trigger'' t TTuple None) (\<lambda>_.
          case t of
            PTuple xs \<Rightarrow>
              then_do (item xs 0) (\<lambda>x0.
              then_do (check ''triggerName'' x0 TStr None) (\<lambda>n.
              then_do (item xs 1) (\<lambda>x1.
              then_do (check ''triggerOperator'' x1 TStr (Some trigger_operators)) (\<lambda>opr.
              then_do (item xs 2) (\<lambda>x2.
              then_do (check ''triggerValue'' x2 TStr None) (\<lambda>val.
                Inr (AList.delete ''trigger''
                      (AList.update ''triggerValue'' val
                        (AList.update ''triggerOperator'' opr
                          (AList.update ''triggerName'' n kw))))))))))
          | _ \<Rightarrow> Inl TypeError))"

definition schedule_choices :: "pyval list" where
  "schedule_choices = [PStr ''dependent'', PStr ''never'', PStr ''rollover'', PStr ''template'']"

text \<open>Lines 77 to 102.\<close>

definition build_schedule :: "pydict \<Rightarrow> error + pydict" where
  "build_schedule kw =
     (if has_key ''schedule_type'' kw \<and> map_of kw ''schedule_type'' = Some (PStr ''ical'')
         \<and> has_key ''schedule_start'' kw \<and> has_key ''schedule_repeat'' kw
      then
        then_do (check ''schedule_start'' (the (map_of kw ''schedule_start'')) TStr None) (\<lambda>start.
        then_do (check ''schedule_repeat'' (the (map_of kw ''schedule_repeat'')) TStr None) (\<lambda>rep.
          Inr (AList.delete ''schedule_repeat''
                (AList.delete ''schedule_start''
                  (AList.delete ''schedule_type''
                    (AList.update ''schedule''
                       (PDict [(''type'', PStr ''ical''), (''start'', start), (''repeatRule'', rep)])
                       kw))))))
      else if has_key ''schedule_type'' kw then
        then_do (check ''schedule_type'' (the (map_of kw ''schedule_type'')) TStr
                   (Some schedule_choices)) (\<lambda>ty.
          Inr (AList.delete ''schedule_type''
                (AList.update ''schedule'' (PDict [(''type'', ty)]) kw)))
      else Inr kw)"

text \<open>
  The blocks run one after the other and the first that raises ends the call: lines 45
  to 61, lines 45 to 75, and lines 45 to 106, everything after the query has been
  assembled.
\<close>

definition before_trigger :: "pydict \<Rightarrow> error + pydict" where
  "before_trigger kw =
     then_do (then_do (then_do (check_name kw) check_description) check_query) check_always_exec"

definition before_schedule :: "pydict \<Rightarrow> error + pydict" where
  "before_schedule kw = then_do (before_trigger kw) expand_trigger"

definition normalize_kw :: "pydict \<Rightarrow> error + pydict" where
  "normalize_kw kw = then_do (before_schedule kw) build_schedule"

definition alert_creator :: "query_constructor \<Rightarrow> pyval list \<Rightarrow> pydict \<Rightarrow> event list \<times> (error + pydict)" where
  "alert_creator qc filters kw =
     (case build_query qc filters kw of (evs, r) \<Rightarrow> (evs, then_do r normalize_kw))"

section \<open>The operations of AlertAPI\<close>

text \<open>
  \<^verbatim>\<open>','.join([self._check('field', f, str) for f in fields])\<close>: the comprehension
  checks the fields from left to right and stops at the first that fails.
\<close>

fun check_fields :: "pyval list \<Rightarrow> error + string list" where
  "check_fields [] = Inr []"
| "check_fields (f # fs) =
     then_do (check ''field'' f TStr None) (\<lambda>v.
     then_do (check_fields fs) (\<lambda>names.
       case v of PStr s \<Rightarrow> Inr (s # names) | _ \<Rightarrow> Inl TypeError))"

text \<open>
  Lines 127 to 129 and 150 to 152. \<open>flds\<close>, the argument \<^verbatim>\<open>fields\<close>, is \<^verbatim>\<open>None\<close> or a list, as the
  docstring has it; \<^verbatim>\<open>if fields:\<close> is false for \<^verbatim>\<open>None\<close> and for the empty list.
\<close>

definition fields_params :: "pyval list option \<Rightarrow> error + pydict" where
  "fields_params flds =
     (case flds of
        None \<Rightarrow> Inr []
      | Some fs \<Rightarrow>
          if fs = [] then Inr []
          else then_do (check_fields fs) (\<lambda>names. Inr [(''fields'', PStr (join '','' names))]))"

text \<open>
  \<^verbatim>\<open>'{}'.format(self._check('id', id, int))\<close>: the text of the validated id. The
  last branch is there for totality only.
\<close>

definition checked_id :: "pyval \<Rightarrow> error + string" where
  "checked_id ident =
     then_do (check ''id'' ident TInt None) (\<lambda>v.
       case v of PInt i \<Rightarrow> Inr (str_int i) | _ \<Rightarrow> Inl TypeError)"

definition send :: "transport \<Rightarrow> request \<Rightarrow> event list \<times> (error + pyval)" where
  "send http req = ([Sent req], response (http req))"

text \<open>Lines 110 to 131.\<close>

definition alert_list :: "transport \<Rightarrow> pyval list option \<Rightarrow> event list \<times> (error + pyval)" where
  "alert_list http flds =
     (case fields_params flds of
        Inl e \<Rightarrow> ([], Inl e)
      | Inr params \<Rightarrow>
          send http \<lparr>rmethod = GET, rpath = ''alert'', rparams = Some params, rjson = None\<rparr>)"

text \<open>Lines 133 to 155.\<close>

definition alert_details :: "transport \<Rightarrow> pyval \<Rightarrow> pyval list option \<Rightarrow> event list \<times> (error + pyval)" where
  "alert_details http ident flds =
     (case fields_params flds of
        Inl e \<Rightarrow> ([], Inl e)
      | Inr params \<Rightarrow>
          (case checked_id ident of
             Inl e \<Rightarrow> ([], Inl e)
           | Inr i \<Rightarrow>
               send http \<lparr>rmethod = GET, rpath = ''alert/'' @ i,
                          rparams = Some params, rjson = None\<rparr>))"

text \<open>Lines 157 to 266.\<close>

definition alert_create ::
  "query_constructor \<Rightarrow> transport \<Rightarrow> pyval list \<Rightarrow> pydict \<Rightarrow> event list \<times> (error + pyval)" where
  "alert_create qc http filters kw =
     (case alert_creator qc filters kw of
        (evs, Inl e) \<Rightarrow> (evs, Inl e)
      | (evs, Inr payload) \<Rightarrow>
          (case send http \<lparr>rmethod = POST, rpath = ''alert'',
                            rparams = None, rjson = Some payload\<rparr> of
             (evs', r) \<Rightarrow> (evs @ evs', r)))"

text \<open>Lines 268 to 321: the document is built first, then the id is checked.\<close>

definition alert_update ::
  "query_constructor \<Rightarrow> transport \<Rightarrow> pyval \<Rightarrow> pyval list \<Rightarrow> pydict \<Rightarrow> event list \<times> (error + pyval)" where
  "alert_update qc http ident filters kw =
     (case alert_creator qc filters kw of
        (evs, Inl e) \<Rightarrow> (evs, Inl e)
      | (evs, Inr payload) \<Rightarrow>
          (case checked_id ident of
             Inl e \<Rightarrow> (evs, Inl e)
           | Inr i \<Rightarrow>
               (case send http \<lparr>rmethod = PATCH, rpath = ''alert/'' @ i,
                                 rparams = None, rjson = Some payload\<rparr> of
                  (evs', r) \<Rightarrow> (evs @ evs', r))))"

text \<open>Lines 323 to 339.\<close>

definition alert_delete :: "transport \<Rightarrow> pyval \<Rightarrow> event list \<times> (error + pyval)" where
  "alert_delete http ident =
     (case checked_id ident of
        Inl e \<Rightarrow> ([], Inl e)
      | Inr i \<Rightarrow>
          send http \<lparr>rmethod = DELETE, rpath = ''alert/'' @ i, rparams = None, rjson = None\<rparr>)"

text \<open>Lines 341 to 354.\<close>

definition alert_execute :: "transport \<Rightarrow> pyval \<Rightarrow> event list \<times> (error + pyval)" where
  "alert_execute http ident =
     (case checked_id ident of
        Inl e \<Rightarrow> ([], Inl e)
      | Inr i \<Rightarrow>
          send http \<lparr>rmethod = POST, rpath = ''alert/'' @ i @ ''/execute'',
                     rparams = None, rjson = None\<rparr>)"

text \<open>The requests among the events of a call.\<close>

fun is_sent :: "event \<Rightarrow> bool" where
  "is_sent (Sent req) = True"
| "is_sent (QueryBuilt fs kw) = False"

definition network_calls :: "event list \<Rightarrow> event list" where
  "network_calls evs = filter is_sent evs"

text \<open>
  A stand-in for the query constructor, to run the model at concrete inputs: it files
  the filter tuples under \<^verbatim>\<open>filters\<close> in a dictionary.
\<close>

definition sample_qc :: query_constructor where
  "sample_qc filters kw = Inr (PDict [(''filters'', PList filters)])"

text \<open>
  Two mappings that hold the same value, or none, under every key but \<open>k\<close>.
\<close>

definition same_but :: "string \<Rightarrow> pydict \<Rightarrow> pydict \<Rightarrow> bool" where
  "same_but k a b = (\<forall>k'. k' \<noteq> k \<longrightarrow> map_of a k' = map_of b k')"
section \<open>Facts about the blocks of the builder\<close>

subsection \<open>Sequencing and the validator\<close>

lemma then_do_Inr_iff: "then_do r f = Inr y \<longleftrightarrow> (\<exists>x. r = Inr x \<and> f x = Inr y)"
  by (cases r) (simp_all add: then_do_def)

lemma then_do_Inl_iff:
  "then_do r f = Inl e \<longleftrightarrow> r = Inl e \<or> (\<exists>x. r = Inr x \<and> f x = Inl e)"
  by (cases r) (simp_all add: then_do_def)

lemma then_do_simps [simp]: "then_do (Inl e) f = Inl e" "then_do (Inr x) f = f x"
  by (simp_all add: then_do_def)

lemma check_Inr_iff:
  "check n v ty cs = Inr v' \<longleftrightarrow>
     v' = v \<and> py_type v = ty \<and> (case cs of None \<Rightarrow> True | Some c \<Rightarrow> v \<in> set c)"
  by (auto simp: check_def split: option.splits)

lemma check_Inl_iff:
  "check n v ty cs = Inl e \<longleftrightarrow>
     e = ValidationError n v cs \<and>
     (py_type v \<noteq> ty \<or> (case cs of None \<Rightarrow> False | Some c \<Rightarrow> v \<notin> set c))"
  by (auto simp: check_def split: option.splits)

lemma py_type_iffs:
  "py_type v = TStr \<longleftrightarrow> (\<exists>s. v = PStr s)"
  "py_type v = TBool \<longleftrightarrow> (\<exists>b. v = PBool b)"
  "py_type v = TInt \<longleftrightarrow> (\<exists>i. v = PInt i)"
  "py_type v = TTuple \<longleftrightarrow> (\<exists>xs. v = PTuple xs)"
  "py_type v = TDict \<longleftrightarrow> (\<exists>d. v = PDict d)"
  by (cases v; simp)+

subsection \<open>When a block returns\<close>

text \<open>
  Each block returns a mapping in exactly the cases below; in every other case it raises.
\<close>

lemma check_name_Inr_iff:
  "check_name kw = Inr kw' \<longleftrightarrow>
     kw' = kw \<and> (\<forall>v. map_of kw ''name'' = Some v \<longrightarrow> py_type v = TStr)"
  by (auto simp: check_name_def then_do_Inr_iff check_Inr_iff AList.update_triv split: option.splits)

lemma check_description_Inr_iff:
  "check_description kw = Inr kw' \<longleftrightarrow>
     kw' = kw \<and> (\<forall>v. map_of kw ''description'' = Some v \<longrightarrow> py_type v = TStr)"
  by (auto simp: check_description_def then_do_Inr_iff check_Inr_iff AList.update_triv
           split: option.splits)

lemma check_query_Inr_iff:
  "check_query kw = Inr kw' \<longleftrightarrow> kw' = kw \<and> map_of kw ''query'' = None"
  by (auto simp: check_query_def then_do_Inr_iff split: option.splits)

lemma check_always_exec_Inr_iff:
  "check_always_exec kw = Inr kw' \<longleftrightarrow>
     (map_of kw ''always_exec_on_trigger'' = None \<and> kw' = kw) \<or>
     (\<exists>b. map_of kw ''always_exec_on_trigger'' = Some (PBool b) \<and>
          kw' = AList.delete ''always_exec_on_trigger''
                  (AList.update ''executeOnEveryTrigger'' (PStr (lower (str_bool b))) kw))"
  by (auto simp: check_always_exec_def then_do_Inr_iff check_Inr_iff py_type_iffs
           split: option.splits pyval.splits)

lemma before_trigger_Inr_iff:
  "before_trigger kw = Inr kw' \<longleftrightarrow>
     (\<forall>v. map_of kw ''name'' = Some v \<longrightarrow> py_type v = TStr) \<and>
     (\<forall>v. map_of kw ''description'' = Some v \<longrightarrow> py_type v = TStr) \<and>
     map_of kw ''query'' = None \<and> check_always_exec kw = Inr kw'"
  by (auto simp: before_trigger_def then_do_Inr_iff check_name_Inr_iff
        check_description_Inr_iff check_query_Inr_iff)

lemma item_Inr_iff: "item xs i = Inr x \<longleftrightarrow> i < length xs \<and> x = xs ! i"
  by (auto simp: item_def)

lemma expand_trigger_Inr_iff:
  "expand_trigger kw = Inr kw' \<longleftrightarrow>
     (map_of kw ''trigger'' = None \<and> kw' = kw) \<or>
     (\<exists>xs n opr val. map_of kw ''trigger'' = Some (PTuple xs) \<and> 3 \<le> length xs \<and>
        xs ! 0 = PStr n \<and> xs ! 1 = PStr opr \<and> PStr opr \<in> set trigger_operators \<and>
        xs ! 2 = PStr val \<and>
        kw' = AList.delete ''trigger''
                (AList.update ''triggerValue'' (PStr val)
                  (AList.update ''triggerOperator'' (PStr opr)
                    (AList.update ''triggerName'' (PStr n) kw))))"
  by (auto simp: expand_trigger_def then_do_Inr_iff check_Inr_iff py_type_iffs item_Inr_iff
           split: option.splits pyval.splits)

lemma build_schedule_Inr_iff:
  "build_schedule kw = Inr kw' \<longleftrightarrow>
     (map_of kw ''schedule_type'' = None \<and> kw' = kw) \<or>
     (\<exists>s r. map_of kw ''schedule_type'' = Some (PStr ''ical'') \<and>
        map_of kw ''schedule_start'' = Some (PStr s) \<and>
        map_of kw ''schedule_repeat'' = Some (PStr r) \<and>
        kw' = AList.delete ''schedule_repeat''
                (AList.delete ''schedule_start''
                  (AList.delete ''schedule_type''
                    (AList.update ''schedule''
                       (PDict [(''type'', PStr ''ical''), (''start'', PStr s),
                               (''repeatRule'', PStr r)]) kw)))) \<or>
     (\<exists>v. map_of kw ''schedule_type'' = Some v \<and> v \<in> set schedule_choices \<and>
        kw' = AList.delete ''schedule_type''
                (AList.update ''schedule'' (PDict [(''type'', v)]) kw))"
  apply (auto simp: build_schedule_def has_key_def then_do_Inr_iff check_Inr_iff py_type_iffs
           schedule_choices_def  split: option.splits if_splits)
  done

subsection \<open>A call that returns a document had no filters and no query\<close>

lemma normalize_kw_Inr_query:
  "normalize_kw kw = Inr out \<Longrightarrow> map_of kw ''query'' = None"
  by (auto simp: normalize_kw_def before_schedule_def then_do_Inr_iff before_trigger_Inr_iff)

lemma build_query_Inr_query:
  "filters \<noteq> [] \<Longrightarrow> snd (build_query qc filters kw) = Inr kw' \<Longrightarrow> map_of kw' ''query'' \<noteq> None"
  by (auto simp: build_query_def Let_def then_do_Inr_iff AList.update_conv' AList.delete_conv')

lemma alert_creator_snd:
  "snd (alert_creator qc filters kw) = then_do (snd (build_query qc filters kw)) normalize_kw"
  by (simp add: alert_creator_def split: prod.splits)

lemma alert_creator_Inr_iff:
  "snd (alert_creator qc filters kw) = Inr out \<longleftrightarrow> filters = [] \<and> normalize_kw kw = Inr out"
proof (cases "filters = []")
  case True
  then show ?thesis by (simp add: alert_creator_def build_query_def)
next
  case False
  have "snd (alert_creator qc filters kw) \<noteq> Inr out"
  proof
    assume "snd (alert_creator qc filters kw) = Inr out"
    then obtain kw' where "snd (build_query qc filters kw) = Inr kw'" "normalize_kw kw' = Inr out"
      by (auto simp: alert_creator_snd then_do_Inr_iff)
    with False show False
      using build_query_Inr_query normalize_kw_Inr_query by blast
  qed
  with False show ?thesis by simp
qed

text \<open>The definitions to unfold when the model is run at a concrete input.\<close>

lemmas model_defs = alert_creator_def build_query_def normalize_kw_def before_schedule_def
  before_trigger_def check_name_def check_description_def check_query_def
  check_always_exec_def expand_trigger_def build_schedule_def has_key_def check_def item_def
  trigger_operators_def schedule_choices_def sample_qc_def lower_def lower_char_def str_bool_def

lemma alert_creator_fst:
  "fst (alert_creator qc filters kw) = fst (build_query qc filters kw)"
  by (simp add: alert_creator_def split: prod.splits)

lemma alert_creator_no_filters: "alert_creator qc [] kw = ([], normalize_kw kw)"
  by (simp add: alert_creator_def build_query_def)

lemma not_Inr_iff: "(\<forall>x. r \<noteq> Inr x) \<longleftrightarrow> (\<exists>e. r = Inl e)"
  by (cases r) auto

subsection \<open>The keys that a block leaves alone\<close>

lemma before_trigger_trigger:
  "before_trigger kw = Inr kw' \<Longrightarrow> map_of kw' ''trigger'' = map_of kw ''trigger''"
  by (auto simp: before_trigger_Inr_iff check_always_exec_Inr_iff AList.update_conv'
        AList.delete_conv')

lemma expand_trigger_not_tuple:
  "map_of kw ''trigger'' = Some t \<Longrightarrow> py_type t \<noteq> TTuple \<Longrightarrow>
   expand_trigger kw = Inl (ValidationError ''trigger'' t None)"
  by (simp add: expand_trigger_def check_def)

lemma normalize_not_tuple:
  assumes "map_of kw ''trigger'' = Some t" "py_type t \<noteq> TTuple"
  shows "\<exists>e. normalize_kw kw = Inl e"
proof (cases "before_trigger kw")
  case (Inl e)
  then show ?thesis by (simp add: normalize_kw_def before_schedule_def)
next
  case (Inr kw')
  with assms have "expand_trigger kw' = Inl (ValidationError ''trigger'' t None)"
    by (simp add: expand_trigger_not_tuple before_trigger_trigger)
  with Inr show ?thesis by (simp add: normalize_kw_def before_schedule_def)
qed

lemma network_calls_build_query [simp]:
  "network_calls (fst (build_query qc filters kw)) = []"
  by (simp add: build_query_def network_calls_def Let_def)

lemma alert_creator_fails_sends_nothing:
  assumes "\<exists>e. snd (alert_creator qc filters kw) = Inl e"
  shows "network_calls (fst (alert_create qc http filters kw)) = []"
    and "network_calls (fst (alert_update qc http ident filters kw)) = []"
proof -
  obtain evs e where ac: "alert_creator qc filters kw = (evs, Inl e)"
    using assms by (cases "alert_creator qc filters kw") auto
  then have "fst (build_query qc filters kw) = evs"
    using alert_creator_fst [of qc filters kw] by simp
  then have "network_calls evs = []"
    using network_calls_build_query [of qc filters kw] by simp
  with ac show "network_calls (fst (alert_create qc http filters kw)) = []"
    and "network_calls (fst (alert_update qc http ident filters kw)) = []"
    by (simp_all add: alert_create_def alert_update_def)
qed

lemma before_schedule_frame:
  assumes "before_schedule kw = Inr kw'"
    and "k \<notin> {''always_exec_on_trigger'', ''executeOnEveryTrigger'', ''trigger'',
               ''triggerName'', ''triggerOperator'', ''triggerValue''}"
  shows "map_of kw' k = map_of kw k"
  using assms
  by (auto simp: before_schedule_def then_do_Inr_iff before_trigger_Inr_iff
        check_always_exec_Inr_iff expand_trigger_Inr_iff AList.update_conv' AList.delete_conv')

lemma build_schedule_rejects:
  assumes "map_of kw ''schedule_type'' = Some v"
    and "v = PStr ''ical'' \<and> (map_of kw ''schedule_start'' = None \<or> map_of kw ''schedule_repeat'' = None)
         \<or> v \<notin> set (PStr ''ical'' # schedule_choices)"
  shows "build_schedule kw = Inl (ValidationError ''schedule_type'' v (Some schedule_choices))"
  using assms
  by (auto simp: build_schedule_def has_key_def check_def schedule_choices_def)

lemma normalize_kw_Inr_schedule:
  assumes "normalize_kw kw = Inr out"
  obtains kw' where "before_schedule kw = Inr kw'" "build_schedule kw' = Inr out"
    "map_of kw' ''schedule_type'' = map_of kw ''schedule_type''"
    "map_of kw' ''schedule_start'' = map_of kw ''schedule_start''"
    "map_of kw' ''schedule_repeat'' = map_of kw ''schedule_repeat''"
proof -
  from assms obtain kw' where *: "before_schedule kw = Inr kw'" "build_schedule kw' = Inr out"
    by (auto simp: normalize_kw_def then_do_Inr_iff)
  from before_schedule_frame [OF *(1)] * that show thesis by simp
qed

lemma lower_str_bool: "lower (str_bool b) = (if b then ''true'' else ''false'')"
  by (simp add: lower_def str_bool_def lower_char_def)

lemma expand_trigger_frame:
  assumes "expand_trigger kw = Inr kw'"
    and "k \<notin> {''trigger'', ''triggerName'', ''triggerOperator'', ''triggerValue''}"
  shows "map_of kw' k = map_of kw k"
  using assms
  by (auto simp: expand_trigger_Inr_iff AList.update_conv' AList.delete_conv')

lemma build_schedule_frame:
  assumes "build_schedule kw = Inr kw'"
    and "k \<notin> {''schedule'', ''schedule_type'', ''schedule_start'', ''schedule_repeat''}"
  shows "map_of kw' k = map_of kw k"
  using assms
  by (auto simp: build_schedule_Inr_iff AList.update_conv' AList.delete_conv')

lemma normalize_kw_Inr_steps:
  assumes "normalize_kw kw = Inr out"
  obtains kw1 kw2 where "check_always_exec kw = Inr kw1" "expand_trigger kw1 = Inr kw2"
    "build_schedule kw2 = Inr out"
  using assms
  by (auto simp: normalize_kw_def before_schedule_def then_do_Inr_iff before_trigger_Inr_iff)

subsection \<open>Requests\<close>

lemma checked_id_Inr_iff: "checked_id ident = Inr s \<longleftrightarrow> (\<exists>i. ident = PInt i \<and> s = str_int i)"
  by (auto simp: checked_id_def then_do_Inr_iff check_Inr_iff py_type_iffs)

lemma checked_id_not_int:
  "py_type ident \<noteq> TInt \<Longrightarrow> checked_id ident = Inl (ValidationError ''id'' ident None)"
  by (simp add: checked_id_def check_def)

lemma checked_id_int [simp]: "checked_id (PInt i) = Inr (str_int i)"
  by (simp add: checked_id_def check_def)

lemma network_calls_send [simp]: "network_calls (fst (send http req)) = [Sent req]"
  by (simp add: send_def network_calls_def)

lemma fst_send [simp]: "fst (send http req) = [Sent req]"
  by (simp add: send_def)

lemma sent_alert_creator: "Sent req \<notin> set (fst (alert_creator qc filters kw))"
  by (simp add: alert_creator_fst build_query_def Let_def)

lemma alert_update_not_int:
  assumes "py_type ident \<noteq> TInt"
  shows "network_calls (fst (alert_update qc http ident filters kw)) = []"
    and "\<exists>e. snd (alert_update qc http ident filters kw) = Inl e"
proof -
  obtain evs r where ac: "alert_creator qc filters kw = (evs, r)"
    by (cases "alert_creator qc filters kw")
  then have "network_calls evs = []"
    using alert_creator_fst [of qc filters kw] network_calls_build_query [of qc filters kw]
    by simp
  with ac assms show "network_calls (fst (alert_update qc http ident filters kw)) = []"
    and "\<exists>e. snd (alert_update qc http ident filters kw) = Inl e"
    by (cases r; simp add: alert_update_def checked_id_not_int)+
qed

lemma alert_details_not_int:
  assumes "py_type ident \<noteq> TInt"
  shows "network_calls (fst (alert_details http ident flds)) = []"
    and "\<exists>e. snd (alert_details http ident flds) = Inl e"
  using assms
  by (cases "fields_params flds"; simp add: alert_details_def checked_id_not_int network_calls_def)+

lemma alert_update_sent:
  assumes "Sent req \<in> set (fst (alert_update qc http ident filters kw))"
  shows "\<exists>i. ident = PInt i \<and> rpath req = ''alert/'' @ str_int i"
proof -
  obtain evs r where ac: "alert_creator qc filters kw = (evs, r)"
    by (cases "alert_creator qc filters kw")
  then have no: "Sent req \<notin> set evs"
    using sent_alert_creator [of req qc filters kw] by simp
  show ?thesis
  proof (cases r)
    case (Inl e)
    with ac no assms show ?thesis by (simp add: alert_update_def)
  next
    case (Inr payload)
    show ?thesis
    proof (cases "checked_id ident")
      case (Inl e)
      with ac no assms Inr show ?thesis by (simp add: alert_update_def)
    next
      case i: (Inr s)
      with ac no assms Inr have "rpath req = ''alert/'' @ s"
        by (auto simp: alert_update_def send_def)
      with i show ?thesis by (auto simp: checked_id_Inr_iff)
    qed
  qed
qed

lemma alert_details_sent:
  assumes "Sent req \<in> set (fst (alert_details http ident flds))"
  shows "\<exists>i. ident = PInt i \<and> rpath req = ''alert/'' @ str_int i"
  using assms
  by (cases "fields_params flds"; cases "checked_id ident")
     (auto simp: alert_details_def checked_id_Inr_iff)

lemma alert_delete_sent:
  assumes "Sent req \<in> set (fst (alert_delete http ident))"
  shows "\<exists>i. ident = PInt i \<and> rpath req = ''alert/'' @ str_int i"
  using assms
  by (cases "checked_id ident") (auto simp: alert_delete_def checked_id_Inr_iff)

lemma alert_execute_sent:
  assumes "Sent req \<in> set (fst (alert_execute http ident))"
  shows "\<exists>i. ident = PInt i \<and> rpath req = ''alert/'' @ str_int i @ ''/execute''"
  using assms
  by (cases "checked_id ident") (auto simp: alert_execute_def checked_id_Inr_iff)

subsection \<open>The field list\<close>

lemma check_fields_text: "check_fields (map PStr names) = Inr names"
  by (induction names) (simp_all add: check_def)

lemma check_fields_not_text:
  "\<exists>f\<in>set fs. py_type f \<noteq> TStr \<Longrightarrow>
   \<exists>f\<in>set fs. py_type f \<noteq> TStr \<and> check_fields fs = Inl (ValidationError ''field'' f None)"
proof (induction fs)
  case Nil
  then show ?case by simp
next
  case (Cons a fs)
  show ?case
  proof (cases "py_type a = TStr")
    case False
    then show ?thesis by (simp add: check_def)
  next
    case True
    then obtain s where a: "a = PStr s" by (auto simp: py_type_iffs)
    from Cons.prems True have "\<exists>f\<in>set fs. py_type f \<noteq> TStr" by auto
    from Cons.IH [OF this] obtain f where "f \<in> set fs" "py_type f \<noteq> TStr"
      "check_fields fs = Inl (ValidationError ''field'' f None)" by blast
    with a show ?thesis by (auto simp: check_def)
  qed
qed

subsection \<open>Two mappings that differ under one key\<close>

text \<open>
  A key that no block reads has no part in whether, and how, the blocks fail.
\<close>

lemma same_but_lookup: "same_but k a b \<Longrightarrow> k' \<noteq> k \<Longrightarrow> map_of a k' = map_of b k'"
  by (simp add: same_but_def)

lemma same_but_update: "same_but k a b \<Longrightarrow> same_but k (AList.update k' v a) (AList.update k' v b)"
  by (simp add: same_but_def AList.update_conv')

lemma same_but_delete: "same_but k a b \<Longrightarrow> same_but k (AList.delete k' a) (AList.delete k' b)"
  by (simp add: same_but_def AList.delete_conv')

lemma same_but_update_left: "same_but k (AList.update k v a) a"
  by (simp add: same_but_def AList.update_conv')

lemma then_do_rel:
  assumes "rel_sum (=) Q r r'" and "\<And>x y. Q x y \<Longrightarrow> rel_sum (=) R (f x) (g y)"
  shows "rel_sum (=) R (then_do r f) (then_do r' g)"
  using assms by (cases r; cases r') simp_all

lemma check_name_rel:
  assumes "same_but k a b" "k \<noteq> ''name''"
  shows "rel_sum (=) (same_but k) (check_name a) (check_name b)"
  using assms same_but_lookup [OF assms(1), of "''name''"]
  by (auto simp: check_name_def check_def same_but_update split: option.splits)

lemma check_description_rel:
  assumes "same_but k a b" "k \<noteq> ''description''"
  shows "rel_sum (=) (same_but k) (check_description a) (check_description b)"
  using assms same_but_lookup [OF assms(1), of "''description''"]
  by (auto simp: check_description_def check_def same_but_update split: option.splits)

lemma check_query_rel:
  assumes "same_but k a b" "k \<noteq> ''query''"
  shows "rel_sum (=) (same_but k) (check_query a) (check_query b)"
  using assms same_but_lookup [OF assms(1), of "''query''"]
  by (auto simp: check_query_def check_def split: option.splits)

lemma check_always_exec_rel:
  assumes "same_but k a b" "k \<noteq> ''always_exec_on_trigger''"
  shows "rel_sum (=) (same_but k) (check_always_exec a) (check_always_exec b)"
  using assms same_but_lookup [OF assms(1), of "''always_exec_on_trigger''"]
  by (auto simp: check_always_exec_def check_def same_but_update same_but_delete
        split: option.splits pyval.splits)

lemma expand_trigger_rel:
  assumes "same_but k a b" "k \<noteq> ''trigger''"
  shows "rel_sum (=) (same_but k) (expand_trigger a) (expand_trigger b)"
  using assms same_but_lookup [OF assms(1), of "''trigger''"]
  by (auto simp: expand_trigger_def check_def item_def same_but_update same_but_delete
        split: option.splits pyval.splits)

lemma build_schedule_rel:
  assumes "same_but k a b"
    and "k \<noteq> ''schedule_type''" "k \<noteq> ''schedule_start''" "k \<noteq> ''schedule_repeat''"
  shows "rel_sum (=) (same_but k) (build_schedule a) (build_schedule b)"
  using assms same_but_lookup [OF assms(1), of "''schedule_type''"]
    same_but_lookup [OF assms(1), of "''schedule_start''"]
    same_but_lookup [OF assms(1), of "''schedule_repeat''"]
  by (auto simp: build_schedule_def has_key_def check_def same_but_update same_but_delete)

lemma normalize_kw_rel:
  assumes "same_but k a b"
    and "k \<notin> set [''name'', ''description'', ''query'', ''always_exec_on_trigger'', ''trigger'',
                  ''schedule_type'', ''schedule_start'', ''schedule_repeat'']"
  shows "rel_sum (=) (same_but k) (normalize_kw a) (normalize_kw b)"
  unfolding normalize_kw_def before_schedule_def before_trigger_def
  using assms
  by (intro then_do_rel [where Q = "same_but k"] check_name_rel check_description_rel
        check_query_rel check_always_exec_rel expand_trigger_rel build_schedule_rel) simp_all

lemma normalize_kw_value_irrelevant:
  assumes "k \<notin> set [''name'', ''description'', ''query'', ''always_exec_on_trigger'', ''trigger'',
                  ''schedule_type'', ''schedule_start'', ''schedule_repeat'']"
  shows "normalize_kw (AList.update k v kw) = Inl e \<longleftrightarrow> normalize_kw kw = Inl e"
  using normalize_kw_rel [OF same_but_update_left assms, of v kw]
  by (cases "normalize_kw (AList.update k v kw)"; cases "normalize_kw kw") auto

subsection \<open>Replacing the trigger by its first three elements\<close>

lemma update_commute_present:
  "k \<noteq> k' \<Longrightarrow> map_of al k' \<noteq> None \<Longrightarrow>
   AList.update k v (AList.update k' v' al) = AList.update k' v' (AList.update k v al)"
  by (induction al) auto

lemma check_name_retrigger:
  assumes "map_of b ''trigger'' = Some t"
  shows "rel_sum (=) (\<lambda>a' b'. a' = AList.update ''trigger'' t' b' \<and> map_of b' ''trigger'' = Some t)
           (check_name (AList.update ''trigger'' t' b)) (check_name b)"
  using assms
  by (auto simp: check_name_def check_def AList.update_conv' update_commute_present
        split: option.splits)

lemma check_description_retrigger:
  assumes "map_of b ''trigger'' = Some t"
  shows "rel_sum (=) (\<lambda>a' b'. a' = AList.update ''trigger'' t' b' \<and> map_of b' ''trigger'' = Some t)
           (check_description (AList.update ''trigger'' t' b)) (check_description b)"
  using assms
  by (auto simp: check_description_def check_def AList.update_conv' update_commute_present
        split: option.splits)

lemma check_query_retrigger:
  assumes "map_of b ''trigger'' = Some t"
  shows "rel_sum (=) (\<lambda>a' b'. a' = AList.update ''trigger'' t' b' \<and> map_of b' ''trigger'' = Some t)
           (check_query (AList.update ''trigger'' t' b)) (check_query b)"
  using assms
  by (auto simp: check_query_def check_def AList.update_conv' split: option.splits)

lemma check_always_exec_retrigger:
  assumes "map_of b ''trigger'' = Some t"
  shows "rel_sum (=) (\<lambda>a' b'. a' = AList.update ''trigger'' t' b' \<and> map_of b' ''trigger'' = Some t)
           (check_always_exec (AList.update ''trigger'' t' b)) (check_always_exec b)"
  using assms
  by (auto simp: check_always_exec_def check_def AList.update_conv' AList.delete_conv'
        update_commute_present AList.delete_update split: option.splits pyval.splits)

lemma expand_trigger_prefix:
  assumes "map_of kw ''trigger'' = Some (PTuple (a # b # c # rest))"
  shows "expand_trigger (AList.update ''trigger'' (PTuple [a, b, c]) kw) = expand_trigger kw"
  using assms
  by (simp add: expand_trigger_def check_def item_def AList.update_conv' AList.delete_update
        AList.delete_update_same then_do_def split: sum.splits)

lemma normalize_kw_prefix:
  assumes "map_of kw ''trigger'' = Some (PTuple (a # b # c # rest))"
  shows "normalize_kw (AList.update ''trigger'' (PTuple [a, b, c]) kw) = normalize_kw kw"
proof -
  let ?U = "AList.update ''trigger'' (PTuple [a, b, c])"
  let ?Q = "\<lambda>a' b'. a' = ?U b' \<and> map_of b' ''trigger'' = Some (PTuple (a # b # c # rest))"
  have 1: "rel_sum (=) ?Q (check_name (?U kw)) (check_name kw)"
    using assms by (rule check_name_retrigger)
  have 2: "rel_sum (=) ?Q (then_do (check_name (?U kw)) check_description)
             (then_do (check_name kw) check_description)"
    by (rule then_do_rel [OF 1]) (simp add: check_description_retrigger)
  have 3: "rel_sum (=) ?Q (then_do (then_do (check_name (?U kw)) check_description) check_query)
             (then_do (then_do (check_name kw) check_description) check_query)"
    by (rule then_do_rel [OF 2]) (simp add: check_query_retrigger)
  have 4: "rel_sum (=) ?Q (before_trigger (?U kw)) (before_trigger kw)"
    unfolding before_trigger_def
    by (rule then_do_rel [OF 3]) (simp add: check_always_exec_retrigger)
  have 5: "rel_sum (=) (=) (before_schedule (?U kw)) (before_schedule kw)"
    unfolding before_schedule_def
    by (rule then_do_rel [OF 4]) (simp add: expand_trigger_prefix sum.rel_eq)
  have "rel_sum (=) (=) (normalize_kw (?U kw)) (normalize_kw kw)"
    unfolding normalize_kw_def
    by (rule then_do_rel [OF 5]) (simp add: sum.rel_eq)
  then show ?thesis by (simp add: sum.rel_eq)
qed

lemma normalize_kw_frame:
  assumes "normalize_kw kw = Inr out"
    and "k \<notin> set [''always_exec_on_trigger'', ''executeOnEveryTrigger'', ''trigger'',
                  ''triggerName'', ''triggerOperator'', ''triggerValue'',
                  ''schedule'', ''schedule_type'', ''schedule_start'', ''schedule_repeat'']"
  shows "map_of out k = map_of kw k"
proof -
  from assms(1) obtain kw' where "before_schedule kw = Inr kw'" "build_schedule kw' = Inr out"
    by (auto simp: normalize_kw_def then_do_Inr_iff)
  with assms(2) before_schedule_frame [of kw kw' k] build_schedule_frame [of kw' out k]
  show ?thesis by simp
qed

subsection \<open>A trigger of fewer than three elements\<close>

lemma short_list_cases:
  assumes "length xs < 3"
  obtains "xs = []" | a where "xs = [a]" | a b where "xs = [a, b]"
proof (cases xs)
  case Nil then show ?thesis using that by simp
next
  case (Cons a ys)
  show ?thesis
  proof (cases ys)
    case Nil with Cons show ?thesis using that by simp
  next
    case (Cons b zs)
    with \<open>xs = a # ys\<close> assms have "zs = []" by simp
    with Cons \<open>xs = a # ys\<close> show ?thesis using that by simp
  qed
qed

lemma expand_trigger_short:
  assumes "map_of kw ''trigger'' = Some (PTuple xs)" and "length xs < 3"
  shows "expand_trigger kw =
     Inl (case xs of
            [] \<Rightarrow> IndexError
          | [a] \<Rightarrow> if py_type a = TStr then IndexError else ValidationError ''triggerName'' a None
          | a # b # _ \<Rightarrow>
              if py_type a \<noteq> TStr then ValidationError ''triggerName'' a None
              else if py_type b \<noteq> TStr \<or> b \<notin> set trigger_operators
                   then ValidationError ''triggerOperator'' b (Some trigger_operators)
                   else IndexError)"
  using assms(2)
proof (cases xs rule: short_list_cases)
  case 1
  with assms(1) show ?thesis by (simp add: expand_trigger_def check_def item_def)
next
  case (2 a)
  with assms(1) show ?thesis by (simp add: expand_trigger_def check_def item_def)
next
  case (3 a b)
  with assms(1) show ?thesis by (simp add: expand_trigger_def check_def item_def)
qed

lemma expand_trigger_below_three:
  assumes "map_of kw ''trigger'' = Some t" and "\<forall>xs. t = PTuple xs \<longrightarrow> length xs < 3"
  shows "expand_trigger kw =
     Inl (case t of
            PTuple xs \<Rightarrow>
              (case xs of
                 [] \<Rightarrow> IndexError
               | [a] \<Rightarrow> if py_type a = TStr then IndexError
                        else ValidationError ''triggerName'' a None
               | a # b # _ \<Rightarrow>
                   if py_type a \<noteq> TStr then ValidationError ''triggerName'' a None
                   else if py_type b \<noteq> TStr \<or> b \<notin> set trigger_operators
                        then ValidationError ''triggerOperator'' b (Some trigger_operators)
                        else IndexError)
          | _ \<Rightarrow> ValidationError ''trigger'' t None)"
proof (cases "py_type t = TTuple")
  case True
  then obtain xs where t: "t = PTuple xs" by (auto simp: py_type_iffs)
  with assms(2) have "length xs < 3" by simp
  from expand_trigger_short [OF assms(1) [unfolded t] this] t show ?thesis by simp
next
  case False
  from expand_trigger_not_tuple [OF assms(1) False] False show ?thesis
    by (cases t) simp_all
qed

subsection \<open>The joined field names\<close>

lemma join_concat: "join sep (x # xs) = x @ concat (map (\<lambda>s. sep @ s) xs)"
  by (induction xs arbitrary: x) simp_all

lemma check_fields_first_bad:
  "py_type f \<noteq> TStr \<Longrightarrow>
   check_fields (map PStr pre @ f # rest) = Inl (ValidationError ''field'' f None)"
  by (induction pre) (simp_all add: check_def)

lemma fields_text_or_not:
  "(\<exists>names. fs = map PStr names)
   \<or> (\<exists>pre f rest. fs = map PStr pre @ f # rest \<and> py_type f \<noteq> TStr)"
proof (induction fs)
  case Nil
  have "[] = map PStr []" by simp
  then have "\<exists>names. [] = map PStr names" by (rule exI)
  then show ?case by (rule disjI1)
next
  case (Cons a fs)
  show ?case
  proof (cases "py_type a = TStr")
    case False
    then have "a # fs = map PStr [] @ a # fs \<and> py_type a \<noteq> TStr" by simp
    then have "\<exists>pre f rest. a # fs = map PStr pre @ f # rest \<and> py_type f \<noteq> TStr"
      by (intro exI)
    then show ?thesis by (rule disjI2)
  next
    case True
    then obtain s where a: "a = PStr s" by (auto simp: py_type_iffs)
    from Cons.IH show ?thesis
    proof
      assume "\<exists>names. fs = map PStr names"
      then obtain names where "fs = map PStr names" ..
      with a have "a # fs = map PStr (s # names)" by simp
      then have "\<exists>names. a # fs = map PStr names" by (rule exI)
      then show ?thesis by (rule disjI1)
    next
      assume "\<exists>pre f rest. fs = map PStr pre @ f # rest \<and> py_type f \<noteq> TStr"
      then obtain pre f rest where "fs = map PStr pre @ f # rest" "py_type f \<noteq> TStr"
        by (elim exE conjE)
      with a have "a # fs = map PStr (s # pre) @ f # rest \<and> py_type f \<noteq> TStr" by simp
      then have "\<exists>pre f rest. a # fs = map PStr pre @ f # rest \<and> py_type f \<noteq> TStr"
        by (intro exI)
      then show ?thesis by (rule disjI2)
    qed
  qed
qed

section \<open>The query keyword\<close>

text \<open>
  Claim C1: when the options contain a \<^verbatim>\<open>query\<close> key, supplied as a keyword or produced
  from the filter expressions, the value is type-checked as a dictionary and the output
  mapping holds it under \<^verbatim>\<open>query\<close>. The code does not get that far: line 53 assigns to
  \<^verbatim>\<open>doc['query']\<close>, and \<^verbatim>\<open>doc\<close> is not defined. At the call
  \<^verbatim>\<open>_alert_creator(query={})\<close> the check passes and the call ends in a NameError,
  whatever the query constructor is; the same happens to the query that a constructor
  has built from the filter \<^verbatim>\<open>('severity', '=', '3,4')\<close>.
\<close>

theorem query_keyword_raises_NameError:
  "alert_creator qc [] [(''query'', PDict [])] = ([], Inl (NameError ''doc''))
   \<and> snd (alert_creator sample_qc [PTuple [PStr ''severity'', PStr ''='', PStr ''3,4'']]
          [(''name'', PStr ''X'')]) = Inl (NameError ''doc'')"
  by (simp add: model_defs)

section \<open>The default data type\<close>

text \<open>
  Claim C6: with at least one filter expression and no \<^verbatim>\<open>data_type\<close>, the query
  constructor is invoked with \<^verbatim>\<open>data_type = 'vuln'\<close>, and whenever filters are supplied
  the output mapping has no \<^verbatim>\<open>data_type\<close> key. At the call
  \<^verbatim>\<open>_alert_creator(('severity', '=', '3,4'))\<close> the constructor is indeed invoked with
  \<^verbatim>\<open>data_type\<close> (and \<^verbatim>\<open>analysis_type\<close>) set to \<^verbatim>\<open>'vuln'\<close>, but there is no output
  mapping, whatever the constructor does: if it returns a dictionary, the query then
  meets line 53 and the call raises NameError.
\<close>

theorem filters_built_then_NameError:
  "fst (alert_creator qc [PTuple [PStr ''severity'', PStr ''='', PStr ''3,4'']] [])
     = [QueryBuilt [PTuple [PStr ''severity'', PStr ''='', PStr ''3,4'']]
         [(''data_type'', PStr ''vuln''), (''analysis_type'', PStr ''vuln'')]]
   \<and> snd (alert_creator qc [PTuple [PStr ''severity'', PStr ''='', PStr ''3,4'']] []) \<noteq> Inr out
   \<and> snd (alert_creator sample_qc [PTuple [PStr ''severity'', PStr ''='', PStr ''3,4'']] [])
     = Inl (NameError ''doc'')"
proof -
  have "fst (alert_creator qc [PTuple [PStr ''severity'', PStr ''='', PStr ''3,4'']] [])
     = [QueryBuilt [PTuple [PStr ''severity'', PStr ''='', PStr ''3,4'']]
         [(''data_type'', PStr ''vuln''), (''analysis_type'', PStr ''vuln'')]]"
    by (simp add: alert_creator_fst build_query_def has_key_def Let_def)
  moreover have "snd (alert_creator qc [PTuple [PStr ''severity'', PStr ''='', PStr ''3,4'']] [])
     \<noteq> Inr out"
    by (simp add: alert_creator_Inr_iff)
  moreover have "snd (alert_creator sample_qc [PTuple [PStr ''severity'', PStr ''='', PStr ''3,4'']] [])
     = Inl (NameError ''doc'')"
    by (simp add: model_defs)
  ultimately show ?thesis by blast
qed

section \<open>A trigger that is not a tuple of three elements\<close>

text \<open>
  Claim C2, as amended. The claim asks for a ValidationError whenever \<^verbatim>\<open>trigger\<close> is not a
  3-element tuple, raised before the query constructor is invoked. Lines 63 to 75 check
  that the value is a tuple and read its elements 0, 1 and 2; its length is never
  compared with 3. A tuple of more than three elements is therefore accepted, and a
  tuple of fewer than three ends in the IndexError of the first subscript that is out of
  range, unless an element read before it fails its own check. And the query is
  assembled in lines 35 to 43, before the trigger is looked at in line 63.

  What holds: when \<^verbatim>\<open>trigger\<close> is anything but a tuple of three or more elements, the
  call never returns a document and neither \<^verbatim>\<open>create\<close> nor \<^verbatim>\<open>update\<close> sends a request.
  When no filter is supplied and the blocks before the trigger (name, description, query,
  always_exec_on_trigger) complete, the query constructor is not invoked and the outcome
  is: the ValidationError for \<^verbatim>\<open>trigger\<close> when the value is not a tuple; for a tuple of
  fewer than three elements, the ValidationError for \<^verbatim>\<open>triggerName\<close> when element 0 is
  there and is not text, else the ValidationError for \<^verbatim>\<open>triggerOperator\<close> when element 1
  is there and is not one of the four operators, else IndexError. When filters are
  supplied, the query constructor is invoked first, and is handed the unchecked trigger
  among its keywords.
\<close>

theorem trigger_below_three_fails:
  assumes "map_of kw ''trigger'' = Some t" and "\<forall>xs. t = PTuple xs \<longrightarrow> length xs < 3"
  shows "(\<exists>e. snd (alert_creator qc filters kw) = Inl e)
       \<and> network_calls (fst (alert_create qc http filters kw)) = []
       \<and> network_calls (fst (alert_update qc http ident filters kw)) = []
       \<and> (\<forall>kw'. filters = [] \<and> before_trigger kw = Inr kw' \<longrightarrow>
            alert_creator qc filters kw =
              ([], Inl (case t of
                          PTuple xs \<Rightarrow>
                            (case xs of
                               [] \<Rightarrow> IndexError
                             | [a] \<Rightarrow> if py_type a = TStr then IndexError
                                      else ValidationError ''triggerName'' a None
                             | a # b # _ \<Rightarrow>
                                 if py_type a \<noteq> TStr then ValidationError ''triggerName'' a None
                                 else if py_type b \<noteq> TStr \<or> b \<notin> set trigger_operators
                                      then ValidationError ''triggerOperator'' b
                                             (Some trigger_operators)
                                      else IndexError)
                        | _ \<Rightarrow> ValidationError ''trigger'' t None)))
       \<and> (filters \<noteq> [] \<longrightarrow>
            (\<exists>kw2. fst (alert_creator qc filters kw) = [QueryBuilt filters kw2]
                  \<and> map_of kw2 ''trigger'' = Some t))"
proof -
  have fails: "\<exists>e. snd (alert_creator qc filters kw) = Inl e"
  proof (cases "filters = []")
    case True
    have "\<exists>e. normalize_kw kw = Inl e"
    proof (cases "before_trigger kw")
      case (Inl e)
      then show ?thesis by (simp add: normalize_kw_def before_schedule_def)
    next
      case (Inr kw')
      with assms(1) have "map_of kw' ''trigger'' = Some t"
        by (simp add: before_trigger_trigger)
      from expand_trigger_below_three [OF this assms(2)] Inr show ?thesis
        by (simp add: normalize_kw_def before_schedule_def)
    qed
    with True show ?thesis by (simp add: alert_creator_no_filters)
  next
    case False
    have "\<forall>out. snd (alert_creator qc filters kw) \<noteq> Inr out"
      using False by (simp add: alert_creator_Inr_iff)
    then show ?thesis by (simp add: not_Inr_iff)
  qed
  have reach: "alert_creator qc filters kw =
              ([], Inl (case t of
                          PTuple xs \<Rightarrow>
                            (case xs of
                               [] \<Rightarrow> IndexError
                             | [a] \<Rightarrow> if py_type a = TStr then IndexError
                                      else ValidationError ''triggerName'' a None
                             | a # b # _ \<Rightarrow>
                                 if py_type a \<noteq> TStr then ValidationError ''triggerName'' a None
                                 else if py_type b \<noteq> TStr \<or> b \<notin> set trigger_operators
                                      then ValidationError ''triggerOperator'' b
                                             (Some trigger_operators)
                                      else IndexError)
                        | _ \<Rightarrow> ValidationError ''trigger'' t None))"
    if "filters = []" and "before_trigger kw = Inr kw'" for kw'
  proof -
    from that(2) assms(1) have "map_of kw' ''trigger'' = Some t"
      by (simp add: before_trigger_trigger)
    from expand_trigger_below_three [OF this assms(2)] that show ?thesis
      by (simp add: alert_creator_no_filters normalize_kw_def before_schedule_def)
  qed
  have built: "filters \<noteq> [] \<longrightarrow>
            (\<exists>kw2. fst (alert_creator qc filters kw) = [QueryBuilt filters kw2]
                  \<and> map_of kw2 ''trigger'' = Some t)"
    using assms(1)
    by (auto simp: alert_creator_fst build_query_def Let_def AList.update_conv')
  from fails reach built alert_creator_fails_sends_nothing [OF fails] show ?thesis by blast
qed

text \<open>
  The theorem at \<^verbatim>\<open>create(name='X', trigger='sumip>=100')\<close>, at
  \<^verbatim>\<open>create(name='X', trigger=('sumip', '>='))\<close>, and at the first options with one filter.
\<close>

theorem trigger_below_three_fails_witness:
  "map_of [(''name'', PStr ''X''), (''trigger'', PStr ''sumip>=100'')] ''trigger''
     = Some (PStr ''sumip>=100'')
   \<and> py_type (PStr ''sumip>=100'') \<noteq> TTuple
   \<and> before_trigger [(''name'', PStr ''X''), (''trigger'', PStr ''sumip>=100'')]
     = Inr [(''name'', PStr ''X''), (''trigger'', PStr ''sumip>=100'')]
   \<and> alert_creator sample_qc [] [(''name'', PStr ''X''), (''trigger'', PStr ''sumip>=100'')]
     = ([], Inl (ValidationError ''trigger'' (PStr ''sumip>=100'') None))
   \<and> network_calls (fst (alert_create sample_qc (\<lambda>req. Inr (PDict [])) []
        [(''name'', PStr ''X''), (''trigger'', PStr ''sumip>=100'')])) = []
   \<and> length [PStr ''sumip'', PStr ''>=''] < 3
   \<and> alert_creator sample_qc []
        [(''name'', PStr ''X''), (''trigger'', PTuple [PStr ''sumip'', PStr ''>=''])]
     = ([], Inl IndexError)
   \<and> network_calls (fst (alert_create sample_qc (\<lambda>req. Inr (PDict [])) []
        [(''name'', PStr ''X''), (''trigger'', PTuple [PStr ''sumip'', PStr ''>=''])])) = []
   \<and> [PTuple [PStr ''severity'', PStr ''='', PStr ''3,4'']] \<noteq> []
   \<and> (\<exists>kw2. fst (alert_creator sample_qc [PTuple [PStr ''severity'', PStr ''='', PStr ''3,4'']]
                   [(''name'', PStr ''X''), (''trigger'', PStr ''sumip>=100'')])
               = [QueryBuilt [PTuple [PStr ''severity'', PStr ''='', PStr ''3,4'']] kw2]
             \<and> map_of kw2 ''trigger'' = Some (PStr ''sumip>=100''))"
proof -
  let ?kw = "[(''name'', PStr ''X''), (''trigger'', PStr ''sumip>=100'')]"
  let ?t = "PStr ''sumip>=100''"
  let ?kw2 = "[(''name'', PStr ''X''), (''trigger'', PTuple [PStr ''sumip'', PStr ''>=''])]"
  let ?t2 = "PTuple [PStr ''sumip'', PStr ''>='']"
  let ?f = "[PTuple [PStr ''severity'', PStr ''='', PStr ''3,4'']]"
  let ?http = "\<lambda>req::request. (Inr (PDict []) :: error + pyval)"
  have h1: "map_of ?kw ''trigger'' = Some ?t" by simp
  have h2: "\<forall>xs. ?t = PTuple xs \<longrightarrow> length xs < 3" by simp
  have h3: "before_trigger ?kw = Inr ?kw"
    by (simp add: before_trigger_def check_name_def check_description_def check_query_def
          check_always_exec_def check_def)
  have h4: "?f \<noteq> []" by simp
  have g1: "map_of ?kw2 ''trigger'' = Some ?t2" by simp
  have g2: "\<forall>xs. ?t2 = PTuple xs \<longrightarrow> length xs < 3" by simp
  have g3: "before_trigger ?kw2 = Inr ?kw2"
    by (simp add: before_trigger_def check_name_def check_description_def check_query_def
          check_always_exec_def check_def)
  have o: "PStr ''>='' \<in> set trigger_operators" by (simp add: trigger_operators_def)
  note w1 = trigger_below_three_fails [OF h1 h2, of sample_qc "[]" ?http]
  note w2 = trigger_below_three_fails [OF g1 g2, of sample_qc "[]" ?http]
  note w3 = trigger_below_three_fails [OF h1 h2, of sample_qc ?f]
  have e1: "[] = ([]::pyval list) \<and> before_trigger ?kw = Inr ?kw" using h3 by simp
  have e2: "[] = ([]::pyval list) \<and> before_trigger ?kw2 = Inr ?kw2" using g3 by simp
  from w1 have a1: "network_calls (fst (alert_create sample_qc ?http [] ?kw)) = []"
    by blast
  from w1 [THEN conjunct2, THEN conjunct2, THEN conjunct2, THEN conjunct1, THEN spec,
           THEN mp, OF e1]
  have a2: "alert_creator sample_qc [] ?kw = ([], Inl (ValidationError ''trigger'' ?t None))"
    by simp
  from w2 have b1: "network_calls (fst (alert_create sample_qc ?http [] ?kw2)) = []"
    by blast
  from w2 [THEN conjunct2, THEN conjunct2, THEN conjunct2, THEN conjunct1, THEN spec,
           THEN mp, OF e2] o
  have b2: "alert_creator sample_qc [] ?kw2 = ([], Inl IndexError)"
    by simp
  from w3 h4
  have c: "\<exists>kw2. fst (alert_creator sample_qc ?f ?kw) = [QueryBuilt ?f kw2]
             \<and> map_of kw2 ''trigger'' = Some ?t"
    by blast
  have p: "py_type ?t \<noteq> TTuple" by simp
  have l: "length [PStr ''sumip'', PStr ''>=''] < 3" by simp
  show ?thesis
    by (intro conjI h1 p h3 a2 a1 l b2 b1 h4 c)
qed

text \<open>
  Against the claim as it is written: a tuple of four elements is not a 3-element tuple,
  and \<^verbatim>\<open>_alert_creator(trigger=('sumip', '>=', '100', 'extra'))\<close> returns a document;
  with a filter and \<^verbatim>\<open>trigger=5\<close> the query constructor has been invoked when the call
  fails; and \<^verbatim>\<open>_alert_creator(trigger=('sumip', '>='))\<close> fails with an IndexError, which is
  not a ValidationError.
\<close>

theorem trigger_counterexample:
  "snd (alert_creator sample_qc []
          [(''trigger'', PTuple [PStr ''sumip'', PStr ''>='', PStr ''100'', PStr ''extra''])])
     = Inr [(''triggerName'', PStr ''sumip''), (''triggerOperator'', PStr ''>=''),
            (''triggerValue'', PStr ''100'')]
   \<and> fst (alert_creator sample_qc [PTuple [PStr ''severity'', PStr ''='', PStr ''3,4'']]
          [(''trigger'', PInt 5)])
     = [QueryBuilt [PTuple [PStr ''severity'', PStr ''='', PStr ''3,4'']]
         [(''trigger'', PInt 5), (''data_type'', PStr ''vuln''), (''analysis_type'', PStr ''vuln'')]]
   \<and> snd (alert_creator sample_qc [] [(''trigger'', PTuple [PStr ''sumip'', PStr ''>=''])])
     = Inl IndexError"
  by (simp add: model_defs)

section \<open>The schedule options that are rejected\<close>

text \<open>
  Claim C3: when \<^verbatim>\<open>schedule_type\<close> is \<^verbatim>\<open>'ical'\<close> and \<^verbatim>\<open>schedule_start\<close> or
  \<^verbatim>\<open>schedule_repeat\<close> is absent, control falls into the generic schedule branch, which
  validates \<^verbatim>\<open>schedule_type\<close> against the choice set
  \<^verbatim>\<open>{dependent, never, rollover, template}\<close>, without \<^verbatim>\<open>ical\<close>, and so raises a
  ValidationError; likewise any \<^verbatim>\<open>schedule_type\<close> outside
  \<^verbatim>\<open>{dependent, ical, never, rollover, template}\<close>, such as \<^verbatim>\<open>'bogus'\<close>, raises the
  ValidationError that names that choice set.

  For every such mapping the schedule block (lines 77 to 102) raises the ValidationError
  for \<^verbatim>\<open>schedule_type\<close> with the offending value and the four choices. No such call
  returns a document, whatever the other options are; and when no filter is supplied and
  the blocks before the schedule complete, that ValidationError is the outcome of the
  call.
\<close>

theorem schedule_generic_branch_rejects:
  assumes "map_of kw ''schedule_type'' = Some v"
    and "v = PStr ''ical'' \<and> (map_of kw ''schedule_start'' = None \<or> map_of kw ''schedule_repeat'' = None)
         \<or> v \<notin> set (PStr ''ical'' # schedule_choices)"
  shows "build_schedule kw = Inl (ValidationError ''schedule_type'' v (Some schedule_choices))
       \<and> (\<exists>e. snd (alert_creator qc filters kw) = Inl e)
       \<and> (\<forall>kw'. filters = [] \<and> before_schedule kw = Inr kw' \<longrightarrow>
            alert_creator qc filters kw
              = ([], Inl (ValidationError ''schedule_type'' v (Some schedule_choices))))"
proof -
  have reach: "normalize_kw kw = Inl (ValidationError ''schedule_type'' v (Some schedule_choices))"
    if "before_schedule kw = Inr kw'" for kw'
  proof -
    have "map_of kw' ''schedule_type'' = Some v"
      and "map_of kw' ''schedule_start'' = map_of kw ''schedule_start''"
      and "map_of kw' ''schedule_repeat'' = map_of kw ''schedule_repeat''"
      using assms(1) before_schedule_frame [OF that] by simp_all
    with assms(2) have "build_schedule kw' = Inl (ValidationError ''schedule_type'' v (Some schedule_choices))"
      by (intro build_schedule_rejects) simp_all
    with that show ?thesis by (simp add: normalize_kw_def)
  qed
  have "\<exists>e. normalize_kw kw = Inl e"
  proof (cases "before_schedule kw")
    case (Inl e) then show ?thesis by (simp add: normalize_kw_def)
  next
    case (Inr kw') then show ?thesis using reach by blast
  qed
  then have "\<forall>out. snd (alert_creator qc filters kw) \<noteq> Inr out"
    by (auto simp: alert_creator_Inr_iff)
  then have fails: "\<exists>e. snd (alert_creator qc filters kw) = Inl e"
    by (simp add: not_Inr_iff)
  from fails reach build_schedule_rejects [OF assms] show ?thesis
    by (simp add: alert_creator_no_filters)
qed

text \<open>
  The theorem at \<^verbatim>\<open>schedule_type='ical', schedule_start='20240101T000000Z'\<close> and at
  \<^verbatim>\<open>schedule_type='bogus'\<close>.
\<close>

theorem schedule_generic_branch_rejects_witness:
  "map_of [(''schedule_type'', PStr ''ical''), (''schedule_start'', PStr ''20240101T000000Z'')]
          ''schedule_repeat'' = None
   \<and> before_schedule [(''schedule_type'', PStr ''ical''), (''schedule_start'', PStr ''20240101T000000Z'')]
       = Inr [(''schedule_type'', PStr ''ical''), (''schedule_start'', PStr ''20240101T000000Z'')]
   \<and> alert_creator sample_qc []
        [(''schedule_type'', PStr ''ical''), (''schedule_start'', PStr ''20240101T000000Z'')]
       = ([], Inl (ValidationError ''schedule_type'' (PStr ''ical'')
                     (Some [PStr ''dependent'', PStr ''never'', PStr ''rollover'', PStr ''template''])))
   \<and> PStr ''bogus'' \<notin> set (PStr ''ical'' # schedule_choices)
   \<and> before_schedule [(''schedule_type'', PStr ''bogus'')] = Inr [(''schedule_type'', PStr ''bogus'')]
   \<and> alert_creator sample_qc [] [(''schedule_type'', PStr ''bogus'')]
       = ([], Inl (ValidationError ''schedule_type'' (PStr ''bogus'')
                     (Some [PStr ''dependent'', PStr ''never'', PStr ''rollover'', PStr ''template''])))"
proof -
  let ?ical = "[(''schedule_type'', PStr ''ical''), (''schedule_start'', PStr ''20240101T000000Z'')]"
  let ?bogus = "[(''schedule_type'', PStr ''bogus'')]"
  have i1: "map_of ?ical ''schedule_type'' = Some (PStr ''ical'')" by simp
  have i2: "PStr ''ical'' = PStr ''ical'' \<and>
            (map_of ?ical ''schedule_start'' = None \<or> map_of ?ical ''schedule_repeat'' = None)
          \<or> PStr ''ical'' \<notin> set (PStr ''ical'' # schedule_choices)" by simp
  have i3: "before_schedule ?ical = Inr ?ical"
    by (simp add: before_schedule_def before_trigger_def check_name_def check_description_def
          check_query_def check_always_exec_def expand_trigger_def)
  have b1: "map_of ?bogus ''schedule_type'' = Some (PStr ''bogus'')" by simp
  have b0: "PStr ''bogus'' \<notin> set (PStr ''ical'' # schedule_choices)"
    by (simp add: schedule_choices_def)
  then have b2: "PStr ''bogus'' = PStr ''ical'' \<and>
            (map_of ?bogus ''schedule_start'' = None \<or> map_of ?bogus ''schedule_repeat'' = None)
          \<or> PStr ''bogus'' \<notin> set (PStr ''ical'' # schedule_choices)" by blast
  have b3: "before_schedule ?bogus = Inr ?bogus"
    by (simp add: before_schedule_def before_trigger_def check_name_def check_description_def
          check_query_def check_always_exec_def expand_trigger_def)
  from schedule_generic_branch_rejects [OF i1 i2, of sample_qc "[]"] i3
  have "alert_creator sample_qc [] ?ical
          = ([], Inl (ValidationError ''schedule_type'' (PStr ''ical'') (Some schedule_choices)))"
    by blast
  moreover from schedule_generic_branch_rejects [OF b1 b2, of sample_qc "[]"] b3
  have "alert_creator sample_qc [] ?bogus
          = ([], Inl (ValidationError ''schedule_type'' (PStr ''bogus'') (Some schedule_choices)))"
    by blast
  ultimately show ?thesis using i3 b0 b3 by (simp add: schedule_choices_def)
qed

section \<open>The schedule document\<close>

text \<open>
  Claim C4: whenever a call returns a document, then (1) if the options had
  \<^verbatim>\<open>schedule_type = 'ical'\<close> together with \<^verbatim>\<open>schedule_start\<close> and \<^verbatim>\<open>schedule_repeat\<close>,
  both values have passed the check for text, the document holds
  \<^verbatim>\<open>schedule = {type: 'ical', start: <schedule_start>, repeatRule: <schedule_repeat>}\<close>
  and none of the three keys; (2) if the options had a \<^verbatim>\<open>schedule_type\<close> other than
  \<^verbatim>\<open>'ical'\<close>, supplied alone or not, the value is one of dependent, never, rollover,
  template, the document holds \<^verbatim>\<open>schedule = {type: <value>}\<close> and \<^verbatim>\<open>schedule_type\<close> is
  gone.
\<close>

theorem schedule_document:
  assumes "snd (alert_creator qc filters kw) = Inr out"
  shows "(\<forall>s r. map_of kw ''schedule_type'' = Some (PStr ''ical'')
            \<and> map_of kw ''schedule_start'' = Some s \<and> map_of kw ''schedule_repeat'' = Some r
          \<longrightarrow> py_type s = TStr \<and> py_type r = TStr
              \<and> map_of out ''schedule''
                  = Some (PDict [(''type'', PStr ''ical''), (''start'', s), (''repeatRule'', r)])
              \<and> map_of out ''schedule_type'' = None
              \<and> map_of out ''schedule_start'' = None
              \<and> map_of out ''schedule_repeat'' = None)
       \<and> (\<forall>v. map_of kw ''schedule_type'' = Some v \<and> v \<noteq> PStr ''ical''
          \<longrightarrow> v \<in> set schedule_choices
              \<and> map_of out ''schedule'' = Some (PDict [(''type'', v)])
              \<and> map_of out ''schedule_type'' = None)"
proof -
  from assms have "normalize_kw kw = Inr out" by (simp add: alert_creator_Inr_iff)
  then obtain kw' where kw': "build_schedule kw' = Inr out"
    "map_of kw' ''schedule_type'' = map_of kw ''schedule_type''"
    "map_of kw' ''schedule_start'' = map_of kw ''schedule_start''"
    "map_of kw' ''schedule_repeat'' = map_of kw ''schedule_repeat''"
    by (rule normalize_kw_Inr_schedule)
  show ?thesis
    using kw'
    by (auto simp: build_schedule_Inr_iff schedule_choices_def AList.update_conv'
          AList.delete_conv')
qed

text \<open>
  The theorem at the two examples of the specification: the complete ical schedule,
  whose document is exactly the nested \<^verbatim>\<open>schedule\<close>, and \<^verbatim>\<open>schedule_type='never'\<close>
  alone.
\<close>

theorem schedule_document_witness:
  "snd (alert_creator sample_qc []
         [(''schedule_type'', PStr ''ical''), (''schedule_start'', PStr ''20240101T000000Z''),
          (''schedule_repeat'', PStr ''FREQ=DAILY'')])
     = Inr [(''schedule'', PDict [(''type'', PStr ''ical''),
                                 (''start'', PStr ''20240101T000000Z''),
                                 (''repeatRule'', PStr ''FREQ=DAILY'')])]
   \<and> map_of [(''schedule'', PDict [(''type'', PStr ''ical''),
                                 (''start'', PStr ''20240101T000000Z''),
                                 (''repeatRule'', PStr ''FREQ=DAILY'')])] ''schedule_type'' = None
   \<and> snd (alert_creator sample_qc [] [(''schedule_type'', PStr ''never'')])
     = Inr [(''schedule'', PDict [(''type'', PStr ''never'')])]
   \<and> PStr ''never'' \<in> set schedule_choices
   \<and> map_of [(''schedule'', PDict [(''type'', PStr ''never'')])] ''schedule''
     = Some (PDict [(''type'', PStr ''never'')])"
proof -
  let ?ical = "[(''schedule_type'', PStr ''ical''), (''schedule_start'', PStr ''20240101T000000Z''),
                (''schedule_repeat'', PStr ''FREQ=DAILY'')]"
  let ?doc = "[(''schedule'', PDict [(''type'', PStr ''ical''),
                 (''start'', PStr ''20240101T000000Z''), (''repeatRule'', PStr ''FREQ=DAILY'')])]"
  let ?never = "[(''schedule_type'', PStr ''never'')]"
  let ?doc' = "[(''schedule'', PDict [(''type'', PStr ''never'')])]"
  have r1: "snd (alert_creator sample_qc [] ?ical) = Inr ?doc"
    by (simp add: model_defs)
  have r2: "snd (alert_creator sample_qc [] ?never) = Inr ?doc'"
    by (simp add: model_defs)
  have k1: "map_of ?ical ''schedule_type'' = Some (PStr ''ical'')
            \<and> map_of ?ical ''schedule_start'' = Some (PStr ''20240101T000000Z'')
            \<and> map_of ?ical ''schedule_repeat'' = Some (PStr ''FREQ=DAILY'')"
    by simp
  have k2: "map_of ?never ''schedule_type'' = Some (PStr ''never'') \<and> PStr ''never'' \<noteq> PStr ''ical''"
    by simp
  from schedule_document [OF r1] k1 have "map_of ?doc ''schedule_type'' = None"
    by blast
  moreover from schedule_document [OF r2] k2
  have "PStr ''never'' \<in> set schedule_choices \<and>
        map_of ?doc' ''schedule'' = Some (PDict [(''type'', PStr ''never'')])"
    by blast
  ultimately show ?thesis using r1 r2 by blast
qed

section \<open>The execute-on-every-trigger flag\<close>

text \<open>
  Claim C5: whenever a call whose options hold \<^verbatim>\<open>always_exec_on_trigger\<close> returns a
  document, the value has passed the check for a boolean, the document holds
  \<^verbatim>\<open>executeOnEveryTrigger\<close> with the text \<^verbatim>\<open>true\<close> for \<^verbatim>\<open>True\<close> and \<^verbatim>\<open>false\<close> for
  \<^verbatim>\<open>False\<close>, in lower case, and the key \<^verbatim>\<open>always_exec_on_trigger\<close> is not in it.
\<close>

theorem always_exec_renamed:
  assumes "snd (alert_creator qc filters kw) = Inr out"
    and "map_of kw ''always_exec_on_trigger'' = Some v"
  shows "\<exists>b. v = PBool b
           \<and> map_of out ''executeOnEveryTrigger'' = Some (PStr (if b then ''true'' else ''false''))
           \<and> map_of out ''always_exec_on_trigger'' = None"
proof -
  from assms(1) have "normalize_kw kw = Inr out" by (simp add: alert_creator_Inr_iff)
  then obtain kw1 kw2 where s: "check_always_exec kw = Inr kw1" "expand_trigger kw1 = Inr kw2"
    "build_schedule kw2 = Inr out"
    by (rule normalize_kw_Inr_steps)
  from s(1) assms(2) obtain b where v: "v = PBool b"
    and kw1: "kw1 = AList.delete ''always_exec_on_trigger''
                (AList.update ''executeOnEveryTrigger'' (PStr (lower (str_bool b))) kw)"
    unfolding check_always_exec_Inr_iff by auto
  have b: "map_of kw1 ''executeOnEveryTrigger'' = Some (PStr (lower (str_bool b)))"
    "map_of kw1 ''always_exec_on_trigger'' = None"
    unfolding kw1 by (simp_all add: AList.update_conv' AList.delete_conv')
  have "map_of out ''executeOnEveryTrigger'' = map_of kw1 ''executeOnEveryTrigger''"
    and "map_of out ''always_exec_on_trigger'' = map_of kw1 ''always_exec_on_trigger''"
    using expand_trigger_frame [OF s(2)] build_schedule_frame [OF s(3)] by simp_all
  with v b show ?thesis by (simp add: lower_str_bool)
qed

text \<open>The theorem at \<^verbatim>\<open>always_exec_on_trigger=True\<close> and at \<^verbatim>\<open>False\<close>.\<close>

theorem always_exec_renamed_witness:
  "snd (alert_creator sample_qc [] [(''name'', PStr ''X''), (''always_exec_on_trigger'', PBool True)])
     = Inr [(''name'', PStr ''X''), (''executeOnEveryTrigger'', PStr ''true'')]
   \<and> map_of [(''name'', PStr ''X''), (''executeOnEveryTrigger'', PStr ''true'')]
        ''always_exec_on_trigger'' = None
   \<and> snd (alert_creator sample_qc [] [(''always_exec_on_trigger'', PBool False)])
     = Inr [(''executeOnEveryTrigger'', PStr ''false'')]
   \<and> map_of [(''executeOnEveryTrigger'', PStr ''false'')] ''executeOnEveryTrigger''
     = Some (PStr ''false'')"
proof -
  let ?t = "[(''name'', PStr ''X''), (''always_exec_on_trigger'', PBool True)]"
  let ?f = "[(''always_exec_on_trigger'', PBool False)]"
  have r1: "snd (alert_creator sample_qc [] ?t)
              = Inr [(''name'', PStr ''X''), (''executeOnEveryTrigger'', PStr ''true'')]"
    by (simp add: model_defs)
  have r2: "snd (alert_creator sample_qc [] ?f) = Inr [(''executeOnEveryTrigger'', PStr ''false'')]"
    by (simp add: model_defs)
  have k1: "map_of ?t ''always_exec_on_trigger'' = Some (PBool True)" by simp
  have k2: "map_of ?f ''always_exec_on_trigger'' = Some (PBool False)" by simp
  from always_exec_renamed [OF r1 k1]
  have "map_of [(''name'', PStr ''X''), (''executeOnEveryTrigger'', PStr ''true'')]
          ''always_exec_on_trigger'' = None"
    by blast
  moreover from always_exec_renamed [OF r2 k2]
  have "map_of [(''executeOnEveryTrigger'', PStr ''false'')] ''executeOnEveryTrigger''
          = Some (PStr ''false'')"
    by auto
  ultimately show ?thesis using r1 r2 by blast
qed

section \<open>Identifiers are checked before a request is made\<close>

text \<open>
  Claim C7: in \<^verbatim>\<open>details\<close>, \<^verbatim>\<open>update\<close>, \<^verbatim>\<open>delete\<close> and \<^verbatim>\<open>execute\<close> the id is checked as
  an integer before it is put into the request path. With an id that is not an integer,
  \<^verbatim>\<open>delete\<close> and \<^verbatim>\<open>execute\<close> raise the ValidationError for \<^verbatim>\<open>id\<close> and send nothing;
  \<^verbatim>\<open>details\<close> and \<^verbatim>\<open>update\<close> fail too and send nothing. Whenever one of the four does
  send a request, the id is an integer and the path is \<^verbatim>\<open>alert/<id>\<close>, for \<^verbatim>\<open>execute\<close>
  \<^verbatim>\<open>alert/<id>/execute\<close>.
\<close>

theorem id_checked_before_request:
  "(py_type ident \<noteq> TInt \<longrightarrow>
       alert_delete http ident = ([], Inl (ValidationError ''id'' ident None))
     \<and> alert_execute http ident = ([], Inl (ValidationError ''id'' ident None))
     \<and> network_calls (fst (alert_details http ident flds)) = []
     \<and> (\<exists>e. snd (alert_details http ident flds) = Inl e)
     \<and> network_calls (fst (alert_update qc http ident filters kw)) = []
     \<and> (\<exists>e. snd (alert_update qc http ident filters kw) = Inl e))
   \<and> (\<forall>req. Sent req \<in> set (fst (alert_delete http ident))
             \<union> set (fst (alert_details http ident flds))
             \<union> set (fst (alert_update qc http ident filters kw))
          \<longrightarrow> (\<exists>i. ident = PInt i \<and> rpath req = ''alert/'' @ str_int i))
   \<and> (\<forall>req. Sent req \<in> set (fst (alert_execute http ident))
          \<longrightarrow> (\<exists>i. ident = PInt i \<and> rpath req = ''alert/'' @ str_int i @ ''/execute''))"
proof -
  have "alert_delete http ident = ([], Inl (ValidationError ''id'' ident None))"
    and "alert_execute http ident = ([], Inl (ValidationError ''id'' ident None))"
    if "py_type ident \<noteq> TInt"
    using that by (simp_all add: alert_delete_def alert_execute_def checked_id_not_int)
  then show ?thesis
    using alert_details_not_int [of ident http flds] alert_update_not_int [of ident qc http filters kw]
      alert_delete_sent [of _ http ident] alert_details_sent [of _ http ident flds]
      alert_update_sent [of _ qc http ident filters kw] alert_execute_sent [of _ http ident]
    by blast
qed

text \<open>The theorem at \<^verbatim>\<open>delete('12')\<close>, \<^verbatim>\<open>update('12', name='X')\<close> and \<^verbatim>\<open>delete(12)\<close>.\<close>

theorem id_checked_before_request_witness:
  "py_type (PStr ''12'') \<noteq> TInt
   \<and> alert_delete (\<lambda>req. Inr (PDict [(''response'', PStr '''')])) (PStr ''12'')
       = ([], Inl (ValidationError ''id'' (PStr ''12'') None))
   \<and> network_calls (fst (alert_update sample_qc (\<lambda>req. Inr (PDict [(''response'', PStr '''')]))
        (PStr ''12'') [] [(''name'', PStr ''X'')])) = []
   \<and> fst (alert_delete (\<lambda>req. Inr (PDict [(''response'', PStr '''')])) (PInt 12))
       = [Sent \<lparr>rmethod = DELETE, rpath = ''alert/12'', rparams = None, rjson = None\<rparr>]
   \<and> (\<exists>i. PInt 12 = PInt i \<and> ''alert/12'' = ''alert/'' @ str_int i)"
proof -
  let ?http = "\<lambda>req::request. (Inr (PDict [(''response'', PStr '''')]) :: error + pyval)"
  let ?req = "\<lparr>rmethod = DELETE, rpath = ''alert/12'', rparams = None, rjson = None\<rparr>"
  have h: "py_type (PStr ''12'') \<noteq> TInt" by simp
  have s: "fst (alert_delete ?http (PInt 12)) = [Sent ?req]"
    by (simp add: alert_delete_def str_int_def digit_char_def)
  then have m: "Sent ?req \<in> set (fst (alert_delete ?http (PInt 12)))
             \<union> set (fst (alert_details ?http (PInt 12) None))
             \<union> set (fst (alert_update sample_qc ?http (PInt 12) [] []))"
    by simp
  from id_checked_before_request [of "PStr ''12''" ?http None sample_qc "[]" "[(''name'', PStr ''X'')]"] h
  have "alert_delete ?http (PStr ''12'') = ([], Inl (ValidationError ''id'' (PStr ''12'') None))"
    and "network_calls (fst (alert_update sample_qc ?http (PStr ''12'') [] [(''name'', PStr ''X'')])) = []"
    by blast+
  moreover from id_checked_before_request [of "PInt 12" ?http None sample_qc "[]" "[]"] m
  have "\<exists>i. PInt 12 = PInt i \<and> rpath ?req = ''alert/'' @ str_int i"
    by blast
  ultimately show ?thesis using h s by simp
qed

section \<open>Listing with a projection\<close>

text \<open>
  Claim C8: \<^verbatim>\<open>list\<close> with a non-empty \<^verbatim>\<open>fields\<close> checks every field as text. When all
  of them are text, \<^verbatim>\<open>n\<close> followed by \<^verbatim>\<open>ns\<close>, one request is made: the GET of the
  collection \<^verbatim>\<open>alert\<close> whose \<^verbatim>\<open>fields\<close> parameter is the text \<^verbatim>\<open>n\<close> followed by a comma
  and a name for each name of \<^verbatim>\<open>ns\<close>, in their order; and the call returns the
  \<^verbatim>\<open>response\<close> member of the decoded reply, as it is. When the fields are text up to a
  field \<^verbatim>\<open>f\<close> that is not, the call raises the ValidationError for \<^verbatim>\<open>f\<close> and no request
  is made. A non-empty list is of one of the two kinds.
\<close>

theorem list_fields_joined:
  "(fs = map PStr (n # ns) \<longrightarrow>
      alert_list http (Some fs)
        = ([Sent \<lparr>rmethod = GET, rpath = ''alert'',
                   rparams = Some [(''fields'', PStr (n @ concat (map (\<lambda>s. '','' @ s) ns)))],
                   rjson = None\<rparr>],
           response (http \<lparr>rmethod = GET, rpath = ''alert'',
                   rparams = Some [(''fields'', PStr (n @ concat (map (\<lambda>s. '','' @ s) ns)))],
                   rjson = None\<rparr>))
    \<and> (http \<lparr>rmethod = GET, rpath = ''alert'',
               rparams = Some [(''fields'', PStr (n @ concat (map (\<lambda>s. '','' @ s) ns)))],
               rjson = None\<rparr>
            = Inr (PDict d) \<and> map_of d ''response'' = Some r
         \<longrightarrow> snd (alert_list http (Some fs)) = Inr r))
   \<and> (fs = map PStr pre @ f # rest \<and> py_type f \<noteq> TStr \<longrightarrow>
        alert_list http (Some fs) = ([], Inl (ValidationError ''field'' f None)))
   \<and> (fs \<noteq> [] \<longrightarrow>
        (\<exists>n ns. fs = map PStr (n # ns))
        \<or> (\<exists>pre f rest. fs = map PStr pre @ f # rest \<and> py_type f \<noteq> TStr))"
proof -
  let ?req = "\<lparr>rmethod = GET, rpath = ''alert'',
               rparams = Some [(''fields'', PStr (n @ concat (map (\<lambda>s. '','' @ s) ns)))],
               rjson = None\<rparr>"
  have good: "alert_list http (Some fs) = ([Sent ?req], response (http ?req))"
    if "fs = map PStr (n # ns)"
  proof -
    have "check_fields fs = Inr (n # ns)" unfolding that by (rule check_fields_text)
    moreover from that have "fs \<noteq> []" by simp
    ultimately show ?thesis
      by (simp add: alert_list_def fields_params_def send_def join_concat)
  qed
  have resp: "snd (alert_list http (Some fs)) = Inr r"
    if "fs = map PStr (n # ns)" and "http ?req = Inr (PDict d)" and "map_of d ''response'' = Some r"
    using good [OF that(1)] that(2,3) by (simp add: response_def)
  have bad: "alert_list http (Some fs) = ([], Inl (ValidationError ''field'' f None))"
    if "fs = map PStr pre @ f # rest" and "py_type f \<noteq> TStr"
  proof -
    have "check_fields fs = Inl (ValidationError ''field'' f None)"
      unfolding that(1) using that(2) by (rule check_fields_first_bad)
    moreover from that have "fs \<noteq> []" by simp
    ultimately show ?thesis by (simp add: alert_list_def fields_params_def)
  qed
  have kinds: "(\<exists>n ns. fs = map PStr (n # ns))
        \<or> (\<exists>pre f rest. fs = map PStr pre @ f # rest \<and> py_type f \<noteq> TStr)"
    if "fs \<noteq> []"
  proof -
    from fields_text_or_not [of fs] show ?thesis
    proof
      assume "\<exists>names. fs = map PStr names"
      then obtain names where names: "fs = map PStr names" ..
      with that obtain m ms where "names = m # ms" by (cases names) simp_all
      with names have "fs = map PStr (m # ms)" by simp
      then have "\<exists>n ns. fs = map PStr (n # ns)" by (intro exI)
      then show ?thesis by (rule disjI1)
    next
      assume "\<exists>pre f rest. fs = map PStr pre @ f # rest \<and> py_type f \<noteq> TStr"
      then show ?thesis by (rule disjI2)
    qed
  qed
  show ?thesis
  proof (intro conjI impI)
    assume "fs = map PStr (n # ns)"
    then show "alert_list http (Some fs) = ([Sent ?req], response (http ?req))" by (rule good)
  next
    assume "fs = map PStr (n # ns)"
      and "http ?req = Inr (PDict d) \<and> map_of d ''response'' = Some r"
    then show "snd (alert_list http (Some fs)) = Inr r" by (elim conjE) (rule resp)
  next
    assume "fs = map PStr pre @ f # rest \<and> py_type f \<noteq> TStr"
    then show "alert_list http (Some fs) = ([], Inl (ValidationError ''field'' f None))"
      by (elim conjE) (rule bad)
  next
    assume "fs \<noteq> []"
    then show "(\<exists>n ns. fs = map PStr (n # ns))
        \<or> (\<exists>pre f rest. fs = map PStr pre @ f # rest \<and> py_type f \<noteq> TStr)"
      by (rule kinds)
  qed
qed

text \<open>
  The theorem at \<^verbatim>\<open>list(fields=['id', 'name', 'status'])\<close>, which asks for
  \<^verbatim>\<open>fields=id,name,status\<close>, and at \<^verbatim>\<open>list(fields=['id', 7, 'name'])\<close>.
\<close>

theorem list_fields_joined_witness:
  "[PStr ''id'', PStr ''name'', PStr ''status''] = map PStr (''id'' # [''name'', ''status''])
   \<and> fst (alert_list (\<lambda>req. Inr (PDict [(''response'', PList [PDict [(''id'', PStr ''1'')]])]))
        (Some [PStr ''id'', PStr ''name'', PStr ''status'']))
     = [Sent \<lparr>rmethod = GET, rpath = ''alert'',
                rparams = Some [(''fields'', PStr ''id,name,status'')], rjson = None\<rparr>]
   \<and> snd (alert_list (\<lambda>req. Inr (PDict [(''response'', PList [PDict [(''id'', PStr ''1'')]])]))
        (Some [PStr ''id'', PStr ''name'', PStr ''status'']))
     = Inr (PList [PDict [(''id'', PStr ''1'')]])
   \<and> [PStr ''id'', PInt 7, PStr ''name''] = map PStr [''id''] @ PInt 7 # [PStr ''name'']
   \<and> py_type (PInt 7) \<noteq> TStr
   \<and> alert_list (\<lambda>req. Inr (PDict [(''response'', PList [PDict [(''id'', PStr ''1'')]])]))
        (Some [PStr ''id'', PInt 7, PStr ''name''])
     = ([], Inl (ValidationError ''field'' (PInt 7) None))"
proof -
  let ?reply = "[(''response'', PList [PDict [(''id'', PStr ''1'')]])]"
  let ?http = "\<lambda>req::request. (Inr (PDict ?reply) :: error + pyval)"
  let ?fs = "[PStr ''id'', PStr ''name'', PStr ''status'']"
  let ?bad = "[PStr ''id'', PInt 7, PStr ''name'']"
  have m: "?fs = map PStr (''id'' # [''name'', ''status''])" by simp
  have j: "''id'' @ concat (map (\<lambda>s. '','' @ s) [''name'', ''status'']) = ''id,name,status''"
    by simp
  have d: "map_of ?reply ''response'' = Some (PList [PDict [(''id'', PStr ''1'')]])" by simp
  have b: "?bad = map PStr [''id''] @ PInt 7 # [PStr ''name''] \<and> py_type (PInt 7) \<noteq> TStr"
    by simp
  note w = list_fields_joined [of ?fs "''id''" "[''name'', ''status'']" ?http ?reply
              "PList [PDict [(''id'', PStr ''1'')]]", THEN conjunct1, THEN mp, OF m]
  have e: "?http \<lparr>rmethod = GET, rpath = ''alert'',
                  rparams = Some [(''fields'',
                    PStr (''id'' @ concat (map (\<lambda>s. '','' @ s) [''name'', ''status''])))],
                  rjson = None\<rparr>
             = Inr (PDict ?reply)"
    by simp
  have a1: "fst (alert_list ?http (Some ?fs))
     = [Sent \<lparr>rmethod = GET, rpath = ''alert'',
                rparams = Some [(''fields'', PStr ''id,name,status'')], rjson = None\<rparr>]"
    unfolding w [THEN conjunct1] by simp
  have a2: "snd (alert_list ?http (Some ?fs)) = Inr (PList [PDict [(''id'', PStr ''1'')]])"
    using w [THEN conjunct2, THEN mp, OF conjI, OF e d] .
  have a3: "alert_list ?http (Some ?bad) = ([], Inl (ValidationError ''field'' (PInt 7) None))"
    using list_fields_joined [of ?bad _ _ ?http _ _ "[''id'']" "PInt 7" "[PStr ''name'']",
            THEN conjunct2, THEN conjunct1, THEN mp, OF b] .
  show ?thesis
    by (intro conjI m a1 a2 b [THEN conjunct1] b [THEN conjunct2] a3)
qed

section \<open>Options that the builder does not know\<close>

text \<open>
  Claim C9, as amended. The claim has every key outside
  \<^verbatim>\<open>{data_type, name, description, query, always_exec_on_trigger, trigger, schedule_type,
  schedule_start, schedule_repeat}\<close> come out unchanged. The builder writes the keys of
  the wire format into the same mapping: \<^verbatim>\<open>executeOnEveryTrigger\<close>, \<^verbatim>\<open>triggerName\<close>,
  \<^verbatim>\<open>triggerOperator\<close>, \<^verbatim>\<open>triggerValue\<close> and \<^verbatim>\<open>schedule\<close>, and with filters it sets and
  deletes \<^verbatim>\<open>analysis_type\<close>; an option that a caller passes under one of these names can
  be overwritten.

  What holds for every other key, \<^verbatim>\<open>action\<close> among them: a document that is returned
  holds the key with the value it came with, or does not hold it if it was not given; and
  the value is not validated: with no filters, a call fails with a given error for one
  value under that key exactly when it does so without that value.
\<close>

theorem other_keys_pass_through:
  assumes "k \<notin> set [''data_type'', ''name'', ''description'', ''query'',
                     ''always_exec_on_trigger'', ''trigger'', ''schedule_type'',
                     ''schedule_start'', ''schedule_repeat'']"
    and "k \<notin> set [''executeOnEveryTrigger'', ''triggerName'', ''triggerOperator'',
                   ''triggerValue'', ''schedule'', ''analysis_type'']"
  shows "(\<forall>out. snd (alert_creator qc filters kw) = Inr out \<longrightarrow> map_of out k = map_of kw k)
       \<and> (\<forall>v e. snd (alert_creator qc [] (AList.update k v kw)) = Inl e
                \<longleftrightarrow> snd (alert_creator qc [] kw) = Inl e)"
proof -
  have "map_of out k = map_of kw k" if "snd (alert_creator qc filters kw) = Inr out" for out
  proof -
    from that have "normalize_kw kw = Inr out" by (simp add: alert_creator_Inr_iff)
    then show ?thesis using assms by (intro normalize_kw_frame) simp_all
  qed
  moreover have "normalize_kw (AList.update k v kw) = Inl e \<longleftrightarrow> normalize_kw kw = Inl e" for v e
    using assms(1) by (intro normalize_kw_value_irrelevant) simp
  ultimately show ?thesis by (simp add: alert_creator_no_filters)
qed

text \<open>
  The theorem at \<^verbatim>\<open>_alert_creator(name='X', action=[{'type': 'notification'}])\<close>, and
  with \<^verbatim>\<open>action=0\<close> in its place, which is not rejected.
\<close>

theorem other_keys_pass_through_witness:
  "snd (alert_creator sample_qc []
          [(''name'', PStr ''X''), (''action'', PList [PDict [(''type'', PStr ''notification'')]])])
     = Inr [(''name'', PStr ''X''), (''action'', PList [PDict [(''type'', PStr ''notification'')]])]
   \<and> map_of [(''name'', PStr ''X''), (''action'', PList [PDict [(''type'', PStr ''notification'')]])]
        ''action'' = Some (PList [PDict [(''type'', PStr ''notification'')]])
   \<and> snd (alert_creator sample_qc [] [(''name'', PStr ''X''), (''action'', PInt 0)])
       \<noteq> Inl (ValidationError ''action'' (PInt 0) None)"
proof -
  let ?kw = "[(''name'', PStr ''X''), (''action'', PList [PDict [(''type'', PStr ''notification'')]])]"
  have k1: "''action'' \<notin> set [''data_type'', ''name'', ''description'', ''query'',
                     ''always_exec_on_trigger'', ''trigger'', ''schedule_type'',
                     ''schedule_start'', ''schedule_repeat'']"
    by simp
  have k2: "''action'' \<notin> set [''executeOnEveryTrigger'', ''triggerName'', ''triggerOperator'',
                   ''triggerValue'', ''schedule'', ''analysis_type'']"
    by simp
  have r: "snd (alert_creator sample_qc [] ?kw) = Inr ?kw"
    by (simp add: model_defs)
  have u: "AList.update ''action'' (PInt 0) ?kw = [(''name'', PStr ''X''), (''action'', PInt 0)]"
    by simp
  note w = other_keys_pass_through [OF k1 k2, of sample_qc "[]" ?kw]
  from w r have "map_of ?kw ''action'' = map_of ?kw ''action''" by blast
  then have m: "map_of ?kw ''action'' = Some (PList [PDict [(''type'', PStr ''notification'')]])"
    by simp
  from w have "snd (alert_creator sample_qc [] (AList.update ''action'' (PInt 0) ?kw))
                 = Inl (ValidationError ''action'' (PInt 0) None)
               \<longleftrightarrow> snd (alert_creator sample_qc [] ?kw) = Inl (ValidationError ''action'' (PInt 0) None)"
    by blast
  with r have "snd (alert_creator sample_qc [] (AList.update ''action'' (PInt 0) ?kw))
                 \<noteq> Inl (ValidationError ''action'' (PInt 0) None)"
    by simp
  then have "snd (alert_creator sample_qc [] [(''name'', PStr ''X''), (''action'', PInt 0)])
       \<noteq> Inl (ValidationError ''action'' (PInt 0) None)"
    unfolding u .
  with r m show ?thesis by blast
qed

text \<open>
  Against the claim as it is written: \<^verbatim>\<open>schedule\<close> is not one of the nine recognised
  keys, and \<^verbatim>\<open>_alert_creator(schedule={'type': 'dependent'}, schedule_type='never')\<close>
  returns a document whose \<^verbatim>\<open>schedule\<close> is \<^verbatim>\<open>{'type': 'never'}\<close>.
\<close>

theorem other_keys_counterexample:
  "''schedule'' \<notin> set [''data_type'', ''name'', ''description'', ''query'',
                     ''always_exec_on_trigger'', ''trigger'', ''schedule_type'',
                     ''schedule_start'', ''schedule_repeat'']
   \<and> snd (alert_creator sample_qc []
          [(''schedule'', PDict [(''type'', PStr ''dependent'')]), (''schedule_type'', PStr ''never'')])
     = Inr [(''schedule'', PDict [(''type'', PStr ''never'')])]
   \<and> map_of [(''schedule'', PDict [(''type'', PStr ''never'')])] ''schedule''
     \<noteq> map_of [(''schedule'', PDict [(''type'', PStr ''dependent'')]),
               (''schedule_type'', PStr ''never'')] ''schedule''"
  by (simp add: model_defs)

section \<open>A trigger tuple with more than three elements\<close>

text \<open>
  Claim C10: let \<^verbatim>\<open>trigger\<close> be a tuple of more than three elements whose first three are
  text. Only elements 0, 1 and 2 are read. The elements after them are dropped without a
  word: with no filters, the call has the very outcome it has for the tuple cut to three.
  The trigger block succeeds once the operator is one of \<^verbatim>\<open>>=\<close>, \<^verbatim>\<open><=\<close>, \<^verbatim>\<open>=\<close>,
  \<^verbatim>\<open>!=\<close>, with the three elements in \<^verbatim>\<open>triggerName\<close>, \<^verbatim>\<open>triggerOperator\<close>,
  \<^verbatim>\<open>triggerValue\<close> and \<^verbatim>\<open>trigger\<close> removed; every document that is returned has an
  operator from that set and holds the three keys and no \<^verbatim>\<open>trigger\<close>.
\<close>

theorem long_trigger_tail_ignored:
  assumes "map_of kw ''trigger'' = Some (PTuple (PStr n # PStr opr # PStr val # x # rest))"
  shows "alert_creator qc [] (AList.update ''trigger'' (PTuple [PStr n, PStr opr, PStr val]) kw)
           = alert_creator qc [] kw
       \<and> (PStr opr \<in> set trigger_operators \<longrightarrow>
            expand_trigger kw
              = Inr (AList.delete ''trigger''
                      (AList.update ''triggerValue'' (PStr val)
                        (AList.update ''triggerOperator'' (PStr opr)
                          (AList.update ''triggerName'' (PStr n) kw)))))
       \<and> (\<forall>out. snd (alert_creator qc filters kw) = Inr out \<longrightarrow>
            PStr opr \<in> set trigger_operators
          \<and> map_of out ''triggerName'' = Some (PStr n)
          \<and> map_of out ''triggerOperator'' = Some (PStr opr)
          \<and> map_of out ''triggerValue'' = Some (PStr val)
          \<and> map_of out ''trigger'' = None)"
proof -
  have a: "alert_creator qc [] (AList.update ''trigger'' (PTuple [PStr n, PStr opr, PStr val]) kw)
           = alert_creator qc [] kw"
    using normalize_kw_prefix [OF assms] by (simp add: alert_creator_no_filters)
  have b: "expand_trigger kw
              = Inr (AList.delete ''trigger''
                      (AList.update ''triggerValue'' (PStr val)
                        (AList.update ''triggerOperator'' (PStr opr)
                          (AList.update ''triggerName'' (PStr n) kw))))"
    if "PStr opr \<in> set trigger_operators"
    using assms that by (simp add: expand_trigger_def check_def item_def)
  have c: "PStr opr \<in> set trigger_operators
          \<and> map_of out ''triggerName'' = Some (PStr n)
          \<and> map_of out ''triggerOperator'' = Some (PStr opr)
          \<and> map_of out ''triggerValue'' = Some (PStr val)
          \<and> map_of out ''trigger'' = None"
    if "snd (alert_creator qc filters kw) = Inr out" for out
  proof -
    from that have "normalize_kw kw = Inr out" by (simp add: alert_creator_Inr_iff)
    then obtain kw1 kw2 where s: "check_always_exec kw = Inr kw1" "expand_trigger kw1 = Inr kw2"
      "build_schedule kw2 = Inr out"
      by (rule normalize_kw_Inr_steps)
    have "map_of kw1 ''trigger'' = map_of kw ''trigger''"
      using s(1) by (auto simp: check_always_exec_Inr_iff AList.update_conv' AList.delete_conv')
    with assms have t: "map_of kw1 ''trigger'' = Some (PTuple (PStr n # PStr opr # PStr val # x # rest))"
      by simp
    from s(2) t have opr: "PStr opr \<in> set trigger_operators"
      and kw2: "kw2 = AList.delete ''trigger''
                      (AList.update ''triggerValue'' (PStr val)
                        (AList.update ''triggerOperator'' (PStr opr)
                          (AList.update ''triggerName'' (PStr n) kw1)))"
      unfolding expand_trigger_Inr_iff by auto
    have "map_of kw2 ''triggerName'' = Some (PStr n)"
      "map_of kw2 ''triggerOperator'' = Some (PStr opr)"
      "map_of kw2 ''triggerValue'' = Some (PStr val)"
      "map_of kw2 ''trigger'' = None"
      unfolding kw2 by (simp_all add: AList.update_conv' AList.delete_conv')
    with build_schedule_frame [OF s(3)] opr show ?thesis by simp
  qed
  from a b c show ?thesis by blast
qed

text \<open>
  The theorem at \<^verbatim>\<open>_alert_creator(name='X', trigger=('sumip', '>=', '100', 'a', 'b'))\<close>,
  which returns a document.
\<close>

theorem long_trigger_tail_ignored_witness:
  "map_of [(''name'', PStr ''X''),
           (''trigger'', PTuple [PStr ''sumip'', PStr ''>='', PStr ''100'', PStr ''a'', PStr ''b''])]
     ''trigger''
     = Some (PTuple (PStr ''sumip'' # PStr ''>='' # PStr ''100'' # PStr ''a'' # [PStr ''b'']))
   \<and> PStr ''>='' \<in> set trigger_operators
   \<and> snd (alert_creator sample_qc []
          [(''name'', PStr ''X''),
           (''trigger'', PTuple [PStr ''sumip'', PStr ''>='', PStr ''100'', PStr ''a'', PStr ''b''])])
     = Inr [(''name'', PStr ''X''), (''triggerName'', PStr ''sumip''),
            (''triggerOperator'', PStr ''>=''), (''triggerValue'', PStr ''100'')]
   \<and> map_of [(''name'', PStr ''X''), (''triggerName'', PStr ''sumip''),
            (''triggerOperator'', PStr ''>=''), (''triggerValue'', PStr ''100'')] ''trigger'' = None
   \<and> alert_creator sample_qc []
         [(''name'', PStr ''X''), (''trigger'', PTuple [PStr ''sumip'', PStr ''>='', PStr ''100''])]
     = alert_creator sample_qc []
         [(''name'', PStr ''X''),
          (''trigger'', PTuple [PStr ''sumip'', PStr ''>='', PStr ''100'', PStr ''a'', PStr ''b''])]"
proof -
  let ?kw = "[(''name'', PStr ''X''),
              (''trigger'', PTuple [PStr ''sumip'', PStr ''>='', PStr ''100'', PStr ''a'', PStr ''b''])]"
  let ?out = "[(''name'', PStr ''X''), (''triggerName'', PStr ''sumip''),
               (''triggerOperator'', PStr ''>=''), (''triggerValue'', PStr ''100'')]"
  have h: "map_of ?kw ''trigger''
             = Some (PTuple (PStr ''sumip'' # PStr ''>='' # PStr ''100'' # PStr ''a'' # [PStr ''b'']))"
    by simp
  have o: "PStr ''>='' \<in> set trigger_operators" by (simp add: trigger_operators_def)
  have r: "snd (alert_creator sample_qc [] ?kw) = Inr ?out"
    by (simp add: model_defs)
  note w = long_trigger_tail_ignored [OF h, of sample_qc "[]"]
  from w r have "map_of ?out ''trigger'' = None" by blast
  moreover from w
  have "alert_creator sample_qc []
          (AList.update ''trigger'' (PTuple [PStr ''sumip'', PStr ''>='', PStr ''100'']) ?kw)
        = alert_creator sample_qc [] ?kw"
    by (rule conjunct1)
  then have "alert_creator sample_qc []
         [(''name'', PStr ''X''), (''trigger'', PTuple [PStr ''sumip'', PStr ''>='', PStr ''100''])]
     = alert_creator sample_qc [] ?kw"
    by simp
  ultimately show ?thesis using h o r by blast
qed


end
